theory Spec2Isabelle
  imports Main "HOL-Library.Code_Target_Nat"
begin

section \<open>Python values, exceptions and strings\<close>

text \<open>
  A Python \<open>str\<close> is modelled as a \<open>string\<close>; a character stands for the code point of
  the same number (0 to 255). On such strings the functions below agree with CPython's:
  the white space of \<open>str.strip\<close> and of the regular expression class \<open>\s\<close> is the set
  \<open>isspace\<close>, the class \<open>\d\<close> holds the ten ASCII digits only, and case-insensitive
  matching of an ASCII letter accepts its two ASCII cases only.
\<close>

datatype pyerr =
    ValueError
  | TypeError
  | RuntimeError
  | PlaywrightTimeoutError
  | OtherError

definition isspace :: "char \<Rightarrow> bool" where
  "isspace c =
     (let n = (of_char c :: nat)
      in (9 \<le> n \<and> n \<le> 13) \<or> (28 \<le> n \<and> n \<le> 32) \<or> n = 133 \<or> n = 160)"

definition lstrip :: "string \<Rightarrow> string" where
  "lstrip s = dropWhile isspace s"

definition rstrip :: "string \<Rightarrow> string" where
  "rstrip s = rev (dropWhile isspace (rev s))"

definition strip :: "string \<Rightarrow> string" where
  "strip s = rstrip (lstrip s)"

definition isdigit :: "char \<Rightarrow> bool" where
  "isdigit c = (48 \<le> (of_char c :: nat) \<and> (of_char c :: nat) \<le> 57)"

definition ascii_alpha :: "char \<Rightarrow> bool" where
  "ascii_alpha c =
     (let n = (of_char c :: nat) in (65 \<le> n \<and> n \<le> 90) \<or> (97 \<le> n \<and> n \<le> 122))"

definition digit_char :: "nat \<Rightarrow> char" where
  "digit_char k = char_of (48 + k mod 10)"

definition lower_char :: "char \<Rightarrow> char" where
  "lower_char c =
     (let n = (of_char c :: nat) in if 65 \<le> n \<and> n \<le> 90 then char_of (n + 32) else c)"

text \<open>\<open>int(text)\<close> on a text of ASCII digits with surrounding white space, as the date
  parser calls it on a matched group; \<open>str(n)\<close> and \<open>'%0wd' % n\<close> for the rendering.\<close>

definition int_of_digits :: "string \<Rightarrow> nat" where
  "int_of_digits s = foldl (\<lambda>acc c. 10 * acc + (of_char c - 48)) 0 (strip s)"

fun str_nat :: "nat \<Rightarrow> string" where
  "str_nat n = (if n < 10 then [digit_char n] else str_nat (n div 10) @ [digit_char n])"

declare str_nat.simps [simp del]

text \<open>\<open>sep.join(parts)\<close>\<close>

fun join_with :: "string \<Rightarrow> string list \<Rightarrow> string" where
  "join_with sep [] = []"
| "join_with sep [s] = s"
| "join_with sep (s # t # ss) = s @ sep @ join_with sep (t # ss)"

definition zfill :: "nat \<Rightarrow> nat \<Rightarrow> string" where
  "zfill w n = replicate (w - length (str_nat n)) (CHR ''0'') @ str_nat n"

section \<open>datetime values\<close>

text \<open>
  A \<open>datetime.datetime\<close>: the calendar fields and \<open>tzinfo\<close>, here the UTC offset in
  seconds of an aware value and \<open>None\<close> for a naive one.
\<close>

record pydatetime =
  year :: nat
  month :: nat
  day :: nat
  hour :: nat
  minute :: nat
  second :: nat
  microsecond :: nat
  tzinfo :: "int option"

definition is_leap :: "nat \<Rightarrow> bool" where
  "is_leap y = (y mod 4 = 0 \<and> (y mod 100 \<noteq> 0 \<or> y mod 400 = 0))"

definition days_in_month :: "nat \<Rightarrow> nat \<Rightarrow> nat" where
  "days_in_month y m =
     (if m = 2 then (if is_leap y then 29 else 28)
      else if m = 4 \<or> m = 6 \<or> m = 9 \<or> m = 11 then 30 else 31)"

definition valid_date :: "nat \<Rightarrow> nat \<Rightarrow> nat \<Rightarrow> bool" where
  "valid_date y m d =
     (1 \<le> y \<and> y \<le> 9999 \<and> 1 \<le> m \<and> m \<le> 12 \<and> 1 \<le> d \<and> d \<le> days_in_month y m)"

definition midnight :: "nat \<Rightarrow> nat \<Rightarrow> nat \<Rightarrow> pydatetime" where
  "midnight y m d =
     \<lparr>year = y, month = m, day = d, hour = 0, minute = 0, second = 0, microsecond = 0,
      tzinfo = None\<rparr>"

text \<open>\<open>datetime.isoformat()\<close> with its defaults: separator \<open>T\<close>, the microseconds when
  they are not zero, the offset of an aware value as \<open>+HH:MM\<close>.\<close>

definition iso_offset :: "int \<Rightarrow> string" where
  "iso_offset off =
     (let a = nat \<bar>off\<bar>
      in (if off < 0 then ''-'' else ''+'') @ zfill 2 (a div 3600) @ '':''
         @ zfill 2 (a div 60 mod 60)
         @ (if a mod 60 = 0 then [] else '':'' @ zfill 2 (a mod 60)))"

definition isoformat :: "pydatetime \<Rightarrow> string" where
  "isoformat dt =
     zfill 4 (year dt) @ ''-'' @ zfill 2 (month dt) @ ''-'' @ zfill 2 (day dt) @ ''T''
     @ zfill 2 (hour dt) @ '':'' @ zfill 2 (minute dt) @ '':'' @ zfill 2 (second dt)
     @ (if microsecond dt = 0 then [] else ''.'' @ zfill 6 (microsecond dt))
     @ (case tzinfo dt of None \<Rightarrow> [] | Some off \<Rightarrow> iso_offset off)"

section \<open>The date parser of the record model\<close>

subsection \<open>The regular expressions of \<open>strptime\<close>\<close>

text \<open>
  \<open>datetime.strptime\<close> turns the format into a regular expression, matches it at the start
  of the text ignoring case, and rejects a match that leaves text unread. The expression
  is run by a backtracking matcher: \<open>rmatch\<close> lists every way to match, in the order the
  matcher tries them, with the named groups and the unread text; the match Python finds
  is the head of that list. \<open>Set cs\<close> is a character class, \<open>Word w\<close> the literal text \<open>w\<close>
  in any case, \<open>Spaces\<close> the greedy \<open>\s+\<close>.
\<close>

datatype regex =
    Eps
  | Set "char list"
  | Word string
  | Spaces
  | Seq regex regex
  | Or regex regex
  | Group char regex

type_synonym groups = "(char \<times> string) list"

fun spaces_alts :: "string \<Rightarrow> nat \<Rightarrow> (groups \<times> string) list" where
  "spaces_alts s 0 = []"
| "spaces_alts s (Suc k) = ([], drop (Suc k) s) # spaces_alts s k"

fun rmatch :: "regex \<Rightarrow> string \<Rightarrow> (groups \<times> string) list" where
  "rmatch Eps s = [([], s)]"
| "rmatch (Set cs) s =
     (case s of [] \<Rightarrow> [] | c # r \<Rightarrow> if c \<in> set cs then [([], r)] else [])"
| "rmatch (Word w) s =
     (if length w \<le> length s \<and> map lower_char (take (length w) s) = map lower_char w
      then [([], drop (length w) s)] else [])"
| "rmatch Spaces s = spaces_alts s (length (takeWhile isspace s))"
| "rmatch (Seq a b) s =
     concat (map (\<lambda>(g, r). map (\<lambda>(g', r'). (g @ g', r')) (rmatch b r)) (rmatch a s))"
| "rmatch (Or a b) s = rmatch a s @ rmatch b s"
| "rmatch (Group n a) s =
     map (\<lambda>(g, r). ((n, take (length s - length r) s) # g, r)) (rmatch a s)"

definition alts :: "regex list \<Rightarrow> regex" where
  "alts rs = foldr Or rs (Set [])"

definition digit :: regex where
  "digit = Set ''0123456789''"

definition a_month :: "string list" where
  "a_month = [''jan'', ''feb'', ''mar'', ''apr'', ''may'', ''jun'',
              ''jul'', ''aug'', ''sep'', ''oct'', ''nov'', ''dec'']"

definition f_month :: "string list" where
  "f_month = [''january'', ''february'', ''march'', ''april'', ''may'', ''june'', ''july'',
              ''august'', ''september'', ''october'', ''november'', ''december'']"

text \<open>The expressions of the directives, as \<open>_strptime.TimeRE\<close> holds them (English
  month names; the full names are tried longest first).\<close>

definition f_month_longest_first :: "string list" where
  "f_month_longest_first =
     [''september'', ''february'', ''november'', ''december'', ''january'', ''october'',
      ''august'', ''march'', ''april'', ''june'', ''july'', ''may'']"

definition directive :: "char \<Rightarrow> regex option" where
  "directive c =
     (if c = CHR ''Y'' then Some (Group c (Seq digit (Seq digit (Seq digit digit))))
      else if c = CHR ''m'' then
        Some (Group c (alts [Seq (Set ''1'') (Set ''012''),
                             Seq (Set ''0'') (Set ''123456789''),
                             Set ''123456789'']))
      else if c = CHR ''d'' then
        Some (Group c (alts [Seq (Set ''3'') (Set ''01''),
                             Seq (Set ''12'') digit,
                             Seq (Set ''0'') (Set ''123456789''),
                             Set ''123456789'',
                             Seq (Set '' '') (Set ''123456789'')]))
      else if c = CHR ''b'' then Some (Group c (alts (map Word a_month)))
      else if c = CHR ''B'' then Some (Group c (alts (map Word f_month_longest_first)))
      else None)"

text \<open>\<open>TimeRE.pattern\<close>: a run of white space in the format becomes \<open>\s+\<close>, \<open>%x\<close> the
  expression of the directive \<open>x\<close>, any other character itself. (The formats of this
  program hold no character that is special in a regular expression.)\<close>

function pattern :: "string \<Rightarrow> regex option" where
  "pattern [] = Some Eps"
| "pattern (c # cs) =
     (if c = CHR ''%'' then
        (case cs of
           [] \<Rightarrow> None
         | x # rest \<Rightarrow>
             (case directive x of
                None \<Rightarrow> None
              | Some d \<Rightarrow> map_option (Seq d) (pattern rest)))
      else if isspace c then map_option (Seq Spaces) (pattern (dropWhile isspace cs))
      else map_option (Seq (Word [c])) (pattern cs))"
  by pat_completeness auto
termination
  by (relation "measure length") (auto simp: less_Suc_eq_le length_dropWhile_le)

fun index_of :: "'a \<Rightarrow> 'a list \<Rightarrow> nat option" where
  "index_of x [] = None"
| "index_of x (y # ys) = (if x = y then Some 0 else map_option Suc (index_of x ys))"

text \<open>The fields read from the groups: year 1900, month 1 and day 1 unless a group sets
  them; the last of \<open>%m\<close>, \<open>%B\<close>, \<open>%b\<close> in the text wins.\<close>

definition set_field :: "char \<Rightarrow> string \<Rightarrow> nat \<times> nat \<times> nat \<Rightarrow> nat \<times> nat \<times> nat" where
  "set_field n t ymd =
     (case ymd of (y, m, d) \<Rightarrow>
        if n = CHR ''Y'' then (int_of_digits t, m, d)
        else if n = CHR ''m'' then (y, int_of_digits t, d)
        else if n = CHR ''B'' then
          (y, (case index_of (map lower_char t) f_month of Some i \<Rightarrow> Suc i | None \<Rightarrow> m), d)
        else if n = CHR ''b'' then
          (y, (case index_of (map lower_char t) a_month of Some i \<Rightarrow> Suc i | None \<Rightarrow> m), d)
        else if n = CHR ''d'' then (y, m, int_of_digits t)
        else (y, m, d))"

fun group_fields :: "groups \<Rightarrow> nat \<times> nat \<times> nat \<Rightarrow> nat \<times> nat \<times> nat" where
  "group_fields [] ymd = ymd"
| "group_fields (p # g) ymd = group_fields g (set_field (fst p) (snd p) ymd)"

definition strptime :: "string \<Rightarrow> string \<Rightarrow> pyerr + pydatetime" where
  "strptime data fmt =
     (case pattern fmt of
        None \<Rightarrow> Inl ValueError
      | Some re \<Rightarrow>
          (case rmatch re data of
             [] \<Rightarrow> Inl ValueError
           | (g, r) # _ \<Rightarrow>
               if r \<noteq> [] then Inl ValueError
               else (case group_fields g (1900, 1, 1) of
                       (y, m, d) \<Rightarrow>
                         if valid_date y m d then Inr (midnight y m d) else Inl ValueError)))"

subsection \<open>\<open>parse_iso_date\<close>\<close>

definition date_formats :: "string list" where
  "date_formats = [''%Y-%m-%d'', ''%d %b %Y'', ''%d %B %Y'', ''%b %d, %Y'', ''%B %d, %Y'']"

text \<open>The loop over the formats: the first format whose parse does not raise returns;
  when every one raised, the text comes back.\<close>

fun try_formats :: "string \<Rightarrow> string list \<Rightarrow> string" where
  "try_formats s [] = s"
| "try_formats s (fmt # fmts) =
     (case strptime s fmt of
        Inr dt \<Rightarrow> isoformat dt
      | Inl e \<Rightarrow> try_formats s fmts)"

definition parse_iso_date :: "string \<Rightarrow> string" where
  "parse_iso_date s = try_formats (strip s) date_formats"

section \<open>The status deriver\<close>

subsection \<open>Exceptions as values\<close>

text \<open>A computation that may raise returns \<open>Inl\<close> of the exception; \<open>bind\<close> sequences two
  steps, \<open>catch\<close> is \<open>try: ... except Exception: ...\<close>.\<close>

definition bind :: "pyerr + 'a \<Rightarrow> ('a \<Rightarrow> pyerr + 'b) \<Rightarrow> pyerr + 'b" where
  "bind x f = (case x of Inl e \<Rightarrow> Inl e | Inr v \<Rightarrow> f v)"

definition catch :: "pyerr + 'a \<Rightarrow> (pyerr \<Rightarrow> pyerr + 'a) \<Rightarrow> pyerr + 'a" where
  "catch x h = (case x of Inl e \<Rightarrow> h e | Inr v \<Rightarrow> Inr v)"

subsection \<open>Comparing datetimes\<close>

text \<open>
  Two naive values compare by their fields, from the year down to the microsecond; two
  aware values compare by their instants; comparing a naive value with an aware one for
  order raises \<open>TypeError\<close>.
\<close>

fun lex_less :: "nat list \<Rightarrow> nat list \<Rightarrow> bool" where
  "lex_less [] [] = False"
| "lex_less [] (y # ys) = True"
| "lex_less (x # xs) [] = False"
| "lex_less (x # xs) (y # ys) = (x < y \<or> (x = y \<and> lex_less xs ys))"

definition dt_fields :: "pydatetime \<Rightarrow> nat list" where
  "dt_fields dt =
     [year dt, month dt, day dt, hour dt, minute dt, second dt, microsecond dt]"

definition days_before_year :: "nat \<Rightarrow> nat" where
  "days_before_year y = (y - 1) * 365 + (y - 1) div 4 - (y - 1) div 100 + (y - 1) div 400"

definition days_before_month :: "nat \<Rightarrow> nat \<Rightarrow> nat" where
  "days_before_month y m = sum_list (map (days_in_month y) [1..<m])"

definition toordinal :: "pydatetime \<Rightarrow> nat" where
  "toordinal dt = days_before_year (year dt) + days_before_month (year dt) (month dt) + day dt"

definition utc_micros :: "pydatetime \<Rightarrow> int \<Rightarrow> int" where
  "utc_micros dt off =
     ((int (toordinal dt) * 86400 + int (hour dt) * 3600 + int (minute dt) * 60
       + int (second dt) - off) * 1000000 + int (microsecond dt))"

definition naive_lt :: "pydatetime \<Rightarrow> pydatetime \<Rightarrow> bool" where
  "naive_lt a b = lex_less (dt_fields a) (dt_fields b)"

definition naive_le :: "pydatetime \<Rightarrow> pydatetime \<Rightarrow> bool" where
  "naive_le a b = (lex_less (dt_fields a) (dt_fields b) \<or> dt_fields a = dt_fields b)"

definition dt_lt :: "pydatetime \<Rightarrow> pydatetime \<Rightarrow> pyerr + bool" where
  "dt_lt a b =
     (case (tzinfo a, tzinfo b) of
        (None, None) \<Rightarrow> Inr (naive_lt a b)
      | (Some x, Some y) \<Rightarrow> Inr (utc_micros a x < utc_micros b y)
      | _ \<Rightarrow> Inl TypeError)"

definition dt_le :: "pydatetime \<Rightarrow> pydatetime \<Rightarrow> pyerr + bool" where
  "dt_le a b =
     (case (tzinfo a, tzinfo b) of
        (None, None) \<Rightarrow> Inr (naive_le a b)
      | (Some x, Some y) \<Rightarrow> Inr (utc_micros a x \<le> utc_micros b y)
      | _ \<Rightarrow> Inl TypeError)"

subsection \<open>\<open>determine_status_from_iso\<close>\<close>

text \<open>
  The function reads the clock with \<open>datetime.utcnow()\<close> and parses with
  \<open>datetime.fromisoformat\<close>. Both are taken as parameters: \<open>now\<close> is the value the
  clock returned, \<open>fromisoformat\<close> the parser, whose accepted texts differ between Python
  versions. What is proved below holds for every parser.
\<close>

definition replace_Z :: "string \<Rightarrow> string" where
  "replace_Z s = concat (map (\<lambda>c. if c = CHR ''Z'' then ''+00:00'' else [c]) s)"

text \<open>\<open>if x: d = datetime.fromisoformat(x.replace("Z", "+00:00")) else: d = None\<close>;
  \<open>None\<close> and the empty text are falsy.\<close>

definition parse_opt ::
  "(string \<Rightarrow> pyerr + pydatetime) \<Rightarrow> string option \<Rightarrow> pyerr + pydatetime option" where
  "parse_opt fromisoformat x =
     (case x of
        None \<Rightarrow> Inr None
      | Some t \<Rightarrow>
          if t = [] then Inr None
          else bind (fromisoformat (replace_Z t)) (\<lambda>d. Inr (Some d)))"

text \<open>The body of the \<open>try\<close>: \<open>Inr (Some r)\<close> when it returns \<open>r\<close>, \<open>Inr None\<close> when it
  falls through, \<open>Inl\<close> when it raises. A datetime is always truthy, so \<open>s and ...\<close> only
  tests \<open>s\<close> for \<open>None\<close>; the chained \<open>s <= now <= e\<close> evaluates \<open>now <= e\<close> only after
  \<open>s <= now\<close> held.\<close>

definition status_try ::
  "(string \<Rightarrow> pyerr + pydatetime) \<Rightarrow> pydatetime \<Rightarrow> string option \<Rightarrow> string option
   \<Rightarrow> pyerr + string option" where
  "status_try fromisoformat now start_iso end_iso =
     bind (parse_opt fromisoformat start_iso) (\<lambda>s.
     bind (parse_opt fromisoformat end_iso) (\<lambda>e.
     bind (case s of None \<Rightarrow> Inr False | Some sd \<Rightarrow> dt_lt now sd) (\<lambda>c1.
     if c1 then Inr (Some ''upcoming'')
     else
     bind (case s of
             None \<Rightarrow> Inr False
           | Some sd \<Rightarrow>
               (case e of
                  None \<Rightarrow> Inr False
                | Some ed \<Rightarrow> bind (dt_le sd now) (\<lambda>a. if a then dt_le now ed else Inr False)))
       (\<lambda>c2.
     if c2 then Inr (Some ''running'')
     else
     bind (case e of None \<Rightarrow> Inr False | Some ed \<Rightarrow> dt_lt ed now) (\<lambda>c3.
     if c3 then Inr (Some ''ended'') else Inr None)))))"

definition determine_status_from_iso ::
  "(string \<Rightarrow> pyerr + pydatetime) \<Rightarrow> pydatetime \<Rightarrow> string option \<Rightarrow> string option
   \<Rightarrow> pyerr + string" where
  "determine_status_from_iso fromisoformat now start_iso end_iso =
     bind (catch (status_try fromisoformat now start_iso end_iso) (\<lambda>e. Inr None))
       (\<lambda>r. case r of Some v \<Rightarrow> Inr v | None \<Rightarrow> Inr ''upcoming'')"

subsection \<open>A parser for the examples\<close>

text \<open>
  \<open>fromisoformat_model\<close> parses the texts \<open>YYYY-MM-DD\<close>, \<open>YYYY-MM-DD*HH:MM:SS\<close> and
  \<open>YYYY-MM-DD*HH:MM:SS+HH:MM\<close> (or \<open>-HH:MM\<close>; \<open>*\<close> is any one character) as
  \<open>datetime.fromisoformat\<close> does, and rejects every other text. CPython accepts further
  forms (fractions of a second, shorter times, and from version 3.11 the basic formats).
  The model stands for the parser in the examples only, on texts of the three forms and
  on the text \<open>soon\<close>, which no version parses.
\<close>

fun read_digits :: "nat \<Rightarrow> string \<Rightarrow> (nat \<times> string) option" where
  "read_digits 0 s = Some (0, s)"
| "read_digits (Suc k) [] = None"
| "read_digits (Suc k) (c # r) =
     (if isdigit c
      then map_option (\<lambda>(v, r'). ((of_char c - 48) * 10 ^ k + v, r')) (read_digits k r)
      else None)"

definition expect :: "char \<Rightarrow> string \<Rightarrow> string option" where
  "expect c s = (case s of [] \<Rightarrow> None | x # r \<Rightarrow> if x = c then Some r else None)"

definition read_date :: "string \<Rightarrow> ((nat \<times> nat \<times> nat) \<times> string) option" where
  "read_date s =
     Option.bind (read_digits 4 s) (\<lambda>(y, r1).
     Option.bind (expect (CHR ''-'') r1) (\<lambda>r2.
     Option.bind (read_digits 2 r2) (\<lambda>(m, r3).
     Option.bind (expect (CHR ''-'') r3) (\<lambda>r4.
     Option.bind (read_digits 2 r4) (\<lambda>(d, r5).
     if valid_date y m d then Some ((y, m, d), r5) else None)))))"

definition read_hms :: "string \<Rightarrow> ((nat \<times> nat \<times> nat) \<times> string) option" where
  "read_hms s =
     Option.bind (read_digits 2 s) (\<lambda>(h, r1).
     Option.bind (expect (CHR '':'') r1) (\<lambda>r2.
     Option.bind (read_digits 2 r2) (\<lambda>(mi, r3).
     Option.bind (expect (CHR '':'') r3) (\<lambda>r4.
     Option.bind (read_digits 2 r4) (\<lambda>(sec, r5).
     if h < 24 \<and> mi < 60 \<and> sec < 60 then Some ((h, mi, sec), r5) else None)))))"

definition read_offset :: "string \<Rightarrow> int option" where
  "read_offset s =
     (case s of
        [] \<Rightarrow> None
      | c # r \<Rightarrow>
          if c = CHR ''+'' \<or> c = CHR ''-'' then
            Option.bind (read_digits 2 r) (\<lambda>(h, r1).
            Option.bind (expect (CHR '':'') r1) (\<lambda>r2.
            Option.bind (read_digits 2 r2) (\<lambda>(mi, r3).
            if r3 = [] \<and> int h * 3600 + int mi * 60 < 86400
            then Some ((if c = CHR ''-'' then - 1 else 1) * (int h * 3600 + int mi * 60))
            else None)))
          else None)"

definition fromisoformat_model :: "string \<Rightarrow> pyerr + pydatetime" where
  "fromisoformat_model s =
     (case read_date s of
        None \<Rightarrow> Inl ValueError
      | Some ((y, m, d), r) \<Rightarrow>
          if r = [] then Inr (midnight y m d)
          else (case read_hms (tl r) of
                  None \<Rightarrow> Inl ValueError
                | Some ((h, mi, sec), r') \<Rightarrow>
                    if r' = [] then
                      Inr ((midnight y m d)\<lparr>hour := h, minute := mi, second := sec\<rparr>)
                    else (case read_offset r' of
                            None \<Rightarrow> Inl ValueError
                          | Some off \<Rightarrow>
                              Inr ((midnight y m d)
                                     \<lparr>hour := h, minute := mi, second := sec,
                                      tzinfo := Some off\<rparr>))))"

text \<open>A clock value for the examples: 2026-11-03 12:00:00, naive as \<open>utcnow\<close> returns it.\<close>

definition now_example :: pydatetime where "now_example = (midnight 2026 11 3)\<lparr>hour := 12\<rparr>"

section \<open>The persistence gateway\<close>

subsection \<open>Python values and documents\<close>

datatype pyval =
    PNone
  | PBool bool
  | PInt int
  | PStr string
  | PList "pyval list"
  | PDict "(string \<times> pyval) list"

text \<open>The truth value Python gives a value in \<open>if\<close> and \<open>not\<close>.\<close>

fun truthy :: "pyval \<Rightarrow> bool" where
  "truthy PNone = False"
| "truthy (PBool b) = b"
| "truthy (PInt i) = (i \<noteq> 0)"
| "truthy (PStr s) = (s \<noteq> [])"
| "truthy (PList xs) = (xs \<noteq> [])"
| "truthy (PDict kvs) = (kvs \<noteq> [])"

text \<open>A \<open>dict\<close> with text keys: its items in insertion order, each key once.\<close>

type_synonym document = "(string \<times> pyval) list"

fun dict_set :: "string \<Rightarrow> pyval \<Rightarrow> document \<Rightarrow> document" where
  "dict_set k v [] = [(k, v)]"
| "dict_set k v ((k', v') # kvs) =
     (if k = k' then (k, v) # kvs else (k', v') # dict_set k v kvs)"

subsection \<open>The driver and the store\<close>

text \<open>
  The MongoDB driver is outside the program. Its calls are recorded in a trace; what the
  calls do is given by \<open>server\<close>: whether a client can be constructed for a connection
  string, whether the server behind it answers the ping, whether it accepts a write. The
  contents of the collections are kept by connection string, database and collection
  name.
\<close>

datatype driver_call =
    Connect string
  | Ping string
  | Close string
  | UpdateOne string string string pyval document

record server =
  constructs :: "string \<Rightarrow> bool"
  answers :: "string \<Rightarrow> bool"
  accepts :: "string \<Rightarrow> bool"

record update_result =
  matched_count :: nat
  upserted :: bool

text \<open>
  The state: the module globals \<open>MONGO_URI\<close>, \<open>MONGO_DB\<close>, \<open>MONGO_COLLECTION\<close> and
  \<open>_client\<close> (a client is named by the connection string it was constructed with), the
  process environment, the collections, and the trace of driver calls.
\<close>

record world =
  MONGO_URI :: string
  MONGO_DB :: string
  MONGO_COLLECTION :: string
  client :: "string option"
  environ :: "string \<Rightarrow> string option"
  store :: "string \<times> string \<times> string \<Rightarrow> document list"
  calls :: "driver_call list"

definition getenv :: "world \<Rightarrow> string \<Rightarrow> string \<Rightarrow> string" where
  "getenv w name dflt = (case environ w name of None \<Rightarrow> dflt | Some v \<Rightarrow> v)"

text \<open>\<open>update_one({"id": v}, {"$set": item}, upsert=True)\<close> on the documents of a
  collection: the first document whose \<open>id\<close> is \<open>v\<close> gets the fields of \<open>item\<close>; when there
  is none, a document with the filter's field and the fields of \<open>item\<close> is inserted.\<close>

fun set_fields :: "document \<Rightarrow> document \<Rightarrow> document" where
  "set_fields d [] = d"
| "set_fields d ((k, v) # kvs) = set_fields (dict_set k v d) kvs"

fun update_first :: "pyval \<Rightarrow> document \<Rightarrow> document list \<Rightarrow> document list option" where
  "update_first v item [] = None"
| "update_first v item (d # ds) =
     (if map_of d ''id'' = Some v then Some (set_fields d item # ds)
      else map_option ((#) d) (update_first v item ds))"

definition update_one :: "pyval \<Rightarrow> document \<Rightarrow> document list \<Rightarrow> document list \<times> update_result" where
  "update_one v item ds =
     (case update_first v item ds of
        Some ds' \<Rightarrow> (ds', \<lparr>matched_count = 1, upserted = False\<rparr>)
      | None \<Rightarrow> (ds @ [set_fields [(''id'', v)] item], \<lparr>matched_count = 0, upserted = True\<rparr>))"

subsection \<open>\<open>_ensure_client\<close>, \<open>get_collection\<close>, \<open>upsert_hackathon\<close>, \<open>set_mongo_uri\<close>\<close>

text \<open>
  \<open>_ensure_client\<close> keeps an existing client. Otherwise it constructs one for
  \<open>MONGO_URI\<close> (a failure of the constructor propagates) and pings; when the ping fails
  it closes the client, resets \<open>_client\<close> to \<open>None\<close> and raises \<open>RuntimeError\<close>.
\<close>

definition ensure_client :: "server \<Rightarrow> world \<Rightarrow> (pyerr + unit) \<times> world" where
  "ensure_client srv w =
     (case client w of
        Some c \<Rightarrow> (Inr (), w)
      | None \<Rightarrow>
          (let uri = MONGO_URI w;
               w1 = w\<lparr>calls := calls w @ [Connect uri]\<rparr>
           in if \<not> constructs srv uri then (Inl OtherError, w1)
              else
                (let w2 = w1\<lparr>client := Some uri, calls := calls w1 @ [Ping uri]\<rparr>
                 in if answers srv uri then (Inr (), w2)
                    else (Inl RuntimeError,
                          w2\<lparr>client := None, calls := calls w2 @ [Close uri]\<rparr>))))"

text \<open>The collection handle: the client's connection string, the database and the
  collection name.\<close>

definition get_collection ::
  "server \<Rightarrow> string option \<Rightarrow> world \<Rightarrow> (pyerr + string \<times> string \<times> string) \<times> world" where
  "get_collection srv collection_name w =
     (case ensure_client srv w of
        (Inl e, w1) \<Rightarrow> (Inl e, w1)
      | (Inr u, w1) \<Rightarrow>
          (let db_name = getenv w1 ''MONGO_DB'' (MONGO_DB w1);
               coll_name =
                 (case collection_name of
                    Some n \<Rightarrow> if n \<noteq> [] then n
                              else getenv w1 ''MONGO_COLLECTION'' (MONGO_COLLECTION w1)
                  | None \<Rightarrow> getenv w1 ''MONGO_COLLECTION'' (MONGO_COLLECTION w1))
           in (case client w1 of
                 None \<Rightarrow> (Inl TypeError, w1)
               | Some c \<Rightarrow> (Inr (c, db_name, coll_name), w1))))"

definition upsert_hackathon :: "server \<Rightarrow> pyval \<Rightarrow> world \<Rightarrow> (pyerr + update_result) \<times> world" where
  "upsert_hackathon srv item w =
     (case item of
        PDict kvs \<Rightarrow>
          (case map_of kvs ''id'' of
             None \<Rightarrow> (Inl ValueError, w)
           | Some v \<Rightarrow>
               if \<not> truthy v then (Inl ValueError, w)
               else
                 (case get_collection srv None w of
                    (Inl e, w1) \<Rightarrow> (Inl e, w1)
                  | (Inr col, w1) \<Rightarrow>
                      (let w2 = w1\<lparr>calls := calls w1
                                   @ [UpdateOne (fst col) (fst (snd col)) (snd (snd col)) v kvs]\<rparr>
                       in if \<not> accepts srv (fst col) then (Inl OtherError, w2)
                          else
                            (case update_one v kvs (store w2 col) of
                               (ds, res) \<Rightarrow> (Inr res, w2\<lparr>store := (store w2)(col := ds)\<rparr>)))))
      | _ \<Rightarrow> (Inl ValueError, w))"

text \<open>\<open>set_mongo_uri\<close>: \<open>None\<close> and the empty text are falsy; a failure of \<open>close\<close> is
  swallowed.\<close>

definition set_mongo_uri :: "string option \<Rightarrow> world \<Rightarrow> world" where
  "set_mongo_uri uri w =
     (case uri of
        None \<Rightarrow> w
      | Some u \<Rightarrow>
          if u = [] then w
          else
            (let w1 = w\<lparr>MONGO_URI := u\<rparr>;
                 w2 = (case client w1 of
                         None \<Rightarrow> w1
                       | Some c \<Rightarrow> w1\<lparr>calls := calls w1 @ [Close c]\<rparr>)
             in w2\<lparr>client := None\<rparr>))"

definition get_mongo_uri :: "world \<Rightarrow> string" where
  "get_mongo_uri w = MONGO_URI w"

text \<open>A state and a server for the examples: the defaults of the module, no client yet,
  an empty store, and a server that answers at every address.\<close>

definition world0 :: world where
  "world0 =
     \<lparr>MONGO_URI = ''mongodb://localhost:27017'', MONGO_DB = ''hackathons'',
      MONGO_COLLECTION = ''hack-info'', client = None, environ = (\<lambda>n. None),
      store = (\<lambda>c. []), calls = []\<rparr>"

definition server_up :: server where
  "server_up = \<lparr>constructs = (\<lambda>u. True), answers = (\<lambda>u. True), accepts = (\<lambda>u. True)\<rparr>"

definition world1 :: world where
  "world1 = world0\<lparr>client := Some ''mongodb://localhost:27017''\<rparr>"

section \<open>URLs and slugs\<close>

subsection \<open>\<open>slug_from_url\<close> and \<open>normalize_url\<close>\<close>

text \<open>
  \<open>urllib.parse.urlparse\<close> and \<open>urllib.parse.urljoin\<close> are library functions; the program's
  functions take them as parameters, and what is proved about the program holds for
  every behaviour of theirs, a raised exception included. A parse result has the six
  components of \<open>ParseResult\<close>.
\<close>

record parse_result =
  scheme :: string
  netloc :: string
  path :: string
  params :: string
  query :: string
  fragment :: string

text \<open>\<open>s.rstrip("/")\<close>, \<open>s.split("/")\<close> and \<open>s.replace(".", "-")\<close>, for any one
  character.\<close>

definition rstrip_char :: "char \<Rightarrow> string \<Rightarrow> string" where
  "rstrip_char c s = rev (dropWhile (\<lambda>x. x = c) (rev s))"

fun split_char :: "char \<Rightarrow> string \<Rightarrow> string list" where
  "split_char c [] = [[]]"
| "split_char c (x # xs) =
     (if x = c then [] # split_char c xs
      else (case split_char c xs of
              [] \<Rightarrow> [[x]]
            | w # ws \<Rightarrow> (x # w) # ws))"

definition replace_char :: "char \<Rightarrow> char \<Rightarrow> string \<Rightarrow> string" where
  "replace_char a b s = map (\<lambda>x. if x = a then b else x) s"

text \<open>The index \<open>[-1]\<close> of a list raises \<open>IndexError\<close> on the empty list; the model gives it
  as \<open>OtherError\<close>.\<close>

definition last_item :: "'a list \<Rightarrow> pyerr + 'a" where
  "last_item xs = (if xs = [] then Inl OtherError else Inr (last xs))"

definition slug_from_url :: "(string \<Rightarrow> pyerr + parse_result) \<Rightarrow> string \<Rightarrow> pyerr + string" where
  "slug_from_url urlparse url =
     bind (urlparse url) (\<lambda>r.
       let p = rstrip_char (CHR ''/'') (path r)
       in if p = [] \<or> p = ''/''
          then bind (urlparse url) (\<lambda>r'. Inr (replace_char (CHR ''.'') (CHR ''-'') (netloc r')))
          else last_item (split_char (CHR ''/'') p))"

definition normalize_url :: "(string \<Rightarrow> string \<Rightarrow> pyerr + string) \<Rightarrow> string \<Rightarrow> string \<Rightarrow> pyerr + string" where
  "normalize_url urljoin base href = urljoin base href"

subsection \<open>The library's URL functions, for the examples\<close>

text \<open>
  \<open>urlparse_model\<close> and \<open>urljoin_model\<close> follow \<open>urllib/parse.py\<close> of CPython 3.11 on texts
  of 8-bit characters, with one simplification: a host in brackets is accepted when the
  brackets pair up (CPython also validates the address between them). They stand for
  the library in the examples.
\<close>

definition uses_relative :: "string list" where
  "uses_relative = ['''', ''ftp'', ''http'', ''gopher'', ''nntp'', ''imap'', ''wais'', ''file'',
     ''https'', ''shttp'', ''mms'', ''prospero'', ''rtsp'', ''rtsps'', ''rtspu'', ''sftp'', ''svn'',
     ''svn+ssh'', ''ws'', ''wss'']"

definition uses_netloc :: "string list" where
  "uses_netloc = ['''', ''ftp'', ''http'', ''gopher'', ''nntp'', ''telnet'', ''imap'', ''wais'',
     ''file'', ''mms'', ''https'', ''shttp'', ''snews'', ''prospero'', ''rtsp'', ''rtsps'',
     ''rtspu'', ''rsync'', ''svn'', ''svn+ssh'', ''sftp'', ''nfs'', ''git'', ''git+ssh'', ''ws'',
     ''wss'']"

definition uses_params :: "string list" where
  "uses_params = ['''', ''ftp'', ''hdl'', ''prospero'', ''http'', ''imap'', ''https'', ''shttp'',
     ''rtsp'', ''rtsps'', ''rtspu'', ''sip'', ''sips'', ''mms'', ''sftp'', ''tel'']"

definition scheme_char :: "char \<Rightarrow> bool" where
  "scheme_char c =
     (let n = (of_char c :: nat)
      in (65 \<le> n \<and> n \<le> 90) \<or> (97 \<le> n \<and> n \<le> 122) \<or> (48 \<le> n \<and> n \<le> 57)
         \<or> c = CHR ''+'' \<or> c = CHR ''-'' \<or> c = CHR ''.'')"

text \<open>\<open>s.split(c, 1)\<close> as a pair, for a text that holds \<open>c\<close>.\<close>

definition split_once :: "char \<Rightarrow> string \<Rightarrow> string \<times> string" where
  "split_once c s = (takeWhile (\<lambda>x. x \<noteq> c) s, drop 1 (dropWhile (\<lambda>x. x \<noteq> c) s))"

definition split_scheme :: "string \<Rightarrow> string \<Rightarrow> string \<times> string" where
  "split_scheme dflt url =
     (let pre = takeWhile (\<lambda>x. x \<noteq> CHR '':'') url
      in if CHR '':'' \<in> set url \<and> pre \<noteq> [] \<and> ascii_alpha (hd url) \<and> list_all scheme_char pre
         then (map lower_char pre, drop (Suc (length pre)) url)
         else (dflt, url))"

definition urlsplit_model ::
  "string \<Rightarrow> string \<Rightarrow> pyerr + string \<times> string \<times> string \<times> string \<times> string" where
  "urlsplit_model url0 scheme0 =
     (let unsafe = (\<lambda>c. c = CHR 0x09 \<or> c = CHR 0x0D \<or> c = CHR 0x0A);
          c0 = (\<lambda>c. (of_char c :: nat) \<le> 32);
          url1 = filter (\<lambda>c. \<not> unsafe c) (dropWhile c0 url0);
          scheme1 = filter (\<lambda>c. \<not> unsafe c) (rev (dropWhile c0 (rev (dropWhile c0 scheme0))));
          (sch, url2) = split_scheme scheme1 url1;
          delim = (\<lambda>c. c = CHR ''/'' \<or> c = CHR ''?'' \<or> c = CHR ''#'');
          (nl, url3) =
            (if take 2 url2 = ''//''
             then (takeWhile (\<lambda>c. \<not> delim c) (drop 2 url2),
                   dropWhile (\<lambda>c. \<not> delim c) (drop 2 url2))
             else ([], url2))
      in if (CHR ''['' \<in> set nl \<and> CHR '']'' \<notin> set nl) \<or> (CHR '']'' \<in> set nl \<and> CHR ''['' \<notin> set nl)
         then Inl ValueError
         else
           (let (url4, frag) =
                  (if CHR ''#'' \<in> set url3 then split_once (CHR ''#'') url3 else (url3, []));
                (url5, qry) =
                  (if CHR ''?'' \<in> set url4 then split_once (CHR ''?'') url4 else (url4, []))
            in Inr (sch, nl, url5, qry, frag)))"

definition splitparams :: "string \<Rightarrow> string \<times> string" where
  "splitparams url =
     (let seg = rev (takeWhile (\<lambda>c. c \<noteq> CHR ''/'') (rev url));
          dir = take (length url - length seg) url
      in if CHR '';'' \<in> set seg
         then (dir @ takeWhile (\<lambda>c. c \<noteq> CHR '';'') seg, drop 1 (dropWhile (\<lambda>c. c \<noteq> CHR '';'') seg))
         else (url, []))"

definition urlparse_with :: "string \<Rightarrow> string \<Rightarrow> pyerr + parse_result" where
  "urlparse_with url scheme0 =
     bind (urlsplit_model url scheme0) (\<lambda>(sch, nl, p, qry, frag).
       let (p', prm) = (if sch \<in> set uses_params \<and> CHR '';'' \<in> set p then splitparams p else (p, []))
       in Inr \<lparr>scheme = sch, netloc = nl, path = p', params = prm, query = qry, fragment = frag\<rparr>)"

definition urlparse_model :: "string \<Rightarrow> pyerr + parse_result" where
  "urlparse_model url = urlparse_with url []"

definition urlunsplit :: "string \<Rightarrow> string \<Rightarrow> string \<Rightarrow> string \<Rightarrow> string \<Rightarrow> string" where
  "urlunsplit sch nl url qry frag =
     (let u1 =
            (if nl \<noteq> [] \<or> (sch \<noteq> [] \<and> sch \<in> set uses_netloc) \<or> take 2 url = ''//''
             then ''//'' @ nl @ (if url \<noteq> [] \<and> take 1 url \<noteq> ''/'' then ''/'' @ url else url)
             else url);
          u2 = (if sch \<noteq> [] then sch @ '':'' @ u1 else u1);
          u3 = (if qry \<noteq> [] then u2 @ ''?'' @ qry else u2)
      in if frag \<noteq> [] then u3 @ ''#'' @ frag else u3)"

definition urlunparse :: "parse_result \<Rightarrow> string" where
  "urlunparse r =
     urlunsplit (scheme r) (netloc r)
       (if params r \<noteq> [] then path r @ '';'' @ params r else path r) (query r) (fragment r)"

fun resolve_segments :: "string list \<Rightarrow> string list \<Rightarrow> string list" where
  "resolve_segments acc [] = acc"
| "resolve_segments acc (seg # segs) =
     (if seg = ''..'' then resolve_segments (butlast acc) segs
      else if seg = ''.'' then resolve_segments acc segs
      else resolve_segments (acc @ [seg]) segs)"

definition squeeze_middle :: "string list \<Rightarrow> string list" where
  "squeeze_middle segs =
     (if length segs < 2 then segs
      else hd segs # filter (\<lambda>s. s \<noteq> []) (butlast (tl segs)) @ [last segs])"

definition urljoin_model :: "string \<Rightarrow> string \<Rightarrow> pyerr + string" where
  "urljoin_model base url =
     (if base = [] then Inr url
      else if url = [] then Inr base
      else
        bind (urlparse_with base []) (\<lambda>b.
        bind (urlparse_with url (scheme b)) (\<lambda>u.
          if scheme u \<noteq> scheme b \<or> scheme u \<notin> set uses_relative then Inr url
          else if scheme u \<in> set uses_netloc \<and> netloc u \<noteq> [] then Inr (urlunparse u)
          else
            (let nl = (if scheme u \<in> set uses_netloc then netloc b else netloc u)
             in if path u = [] \<and> params u = []
                then Inr (urlunparse
                       (u\<lparr>netloc := nl, path := path b, params := params b,
                          query := (if query u = [] then query b else query u)\<rparr>))
                else
                  (let base_parts0 = split_char (CHR ''/'') (path b);
                       base_parts = (if last base_parts0 \<noteq> [] then butlast base_parts0
                                     else base_parts0);
                       segments =
                         (if take 1 (path u) = ''/'' then split_char (CHR ''/'') (path u)
                          else squeeze_middle (base_parts @ split_char (CHR ''/'') (path u)));
                       resolved0 = resolve_segments [] segments;
                       resolved = (if last segments = ''.'' \<or> last segments = ''..''
                                   then resolved0 @ [[]] else resolved0);
                       joined = join_with ''/'' resolved
                   in Inr (urlunparse
                        (u\<lparr>netloc := nl,
                           path := (if joined = [] then ''/'' else joined)\<rparr>)))))))"

section \<open>The extraction engine\<close>

subsection \<open>The browser's page\<close>

text \<open>
  A loaded page, as the Playwright calls of the program see it. Element handles are
  values of a type \<open>'h\<close>; every call may raise. \<open>parent_element h\<close> stands for
  \<open>h.evaluate_handle("el => el.parentElement").as_element()\<close>. The page does not change
  while it is read. What is proved about the program holds for every such page.
\<close>

record 'h page =
  page_url :: string
  page_query_selector :: "string \<Rightarrow> pyerr + 'h option"
  page_query_selector_all :: "string \<Rightarrow> pyerr + 'h list"
  query_selector :: "'h \<Rightarrow> string \<Rightarrow> pyerr + 'h option"
  query_selector_all :: "'h \<Rightarrow> string \<Rightarrow> pyerr + 'h list"
  text_content :: "'h \<Rightarrow> pyerr + string option"
  get_attribute :: "'h \<Rightarrow> string \<Rightarrow> pyerr + string option"
  parent_element :: "'h \<Rightarrow> pyerr + 'h option"

text \<open>The dict of one listing entry.\<close>

record entry =
  e_title :: string
  e_url :: string
  e_submission_period :: "string option"
  e_begins_iso :: "string option"
  e_ends_iso :: "string option"

text \<open>The truth value of an optional text: \<open>None\<close> and the empty text are falsy.\<close>

definition str_truthy :: "string option \<Rightarrow> bool" where
  "str_truthy x = (case x of None \<Rightarrow> False | Some s \<Rightarrow> s \<noteq> [])"

text \<open>\<open>(h.text_content() or "").strip()\<close>\<close>

definition text_or_empty :: "string option \<Rightarrow> string" where
  "text_or_empty t = strip (case t of None \<Rightarrow> [] | Some s \<Rightarrow> s)"

subsection \<open>Finding the anchor of a heading\<close>

text \<open>The walk over at most \<open>k\<close> ancestors: a parent that cannot be read ends the walk; the
  first parent that holds an anchor gives the anchor's \<open>href\<close>; a failing query raises.\<close>

fun walk_up_anchor :: "'h page \<Rightarrow> nat \<Rightarrow> 'h \<Rightarrow> pyerr + string option" where
  "walk_up_anchor pg 0 ancestor = Inr None"
| "walk_up_anchor pg (Suc k) ancestor =
     (case parent_element pg ancestor of
        Inl e \<Rightarrow> Inr None
      | Inr None \<Rightarrow> Inr None
      | Inr (Some parent) \<Rightarrow>
          bind (query_selector pg parent ''a'') (\<lambda>anchor.
            case anchor of
              Some a \<Rightarrow> get_attribute pg a ''href''
            | None \<Rightarrow> walk_up_anchor pg k parent))"

text \<open>The first \<open>try\<close>: the anchor inside the heading, else the walk over four ancestors.\<close>

definition href_first :: "'h page \<Rightarrow> 'h \<Rightarrow> pyerr + string option" where
  "href_first pg h3 =
     bind (query_selector pg h3 ''a'') (\<lambda>a_el.
       case a_el of
         Some a \<Rightarrow> get_attribute pg a ''href''
       | None \<Rightarrow> walk_up_anchor pg 4 h3)"

text \<open>The value of \<open>href\<close> before \<open>if not href: continue\<close>: the first \<open>try\<close> with its
  \<open>except\<close>, then, when that left \<open>href\<close> falsy, the query for \<open>a[href]\<close> in the heading.\<close>

definition find_href :: "'h page \<Rightarrow> 'h \<Rightarrow> string option" where
  "find_href pg h3 =
     (let href = (case href_first pg h3 of Inl e \<Rightarrow> None | Inr v \<Rightarrow> v)
      in if str_truthy href then href
         else
           (case query_selector pg h3 ''a[href]'' of
              Inl e \<Rightarrow> None
            | Inr None \<Rightarrow> href
            | Inr (Some a) \<Rightarrow>
                (case get_attribute pg a ''href'' of Inl e \<Rightarrow> None | Inr v \<Rightarrow> v)))"

text \<open>The normalised URL: \<open>//host/...\<close> gets the scheme \<open>https:\<close>, then \<open>normalize_url\<close>
  resolves against the page's URL; when that raises, the (upgraded) \<open>href\<close> is the URL.\<close>

definition resolve_url :: "(string \<Rightarrow> string \<Rightarrow> pyerr + string) \<Rightarrow> 'h page \<Rightarrow> string \<Rightarrow> string" where
  "resolve_url urljoin pg href =
     (let href' = (if take 2 href = ''//'' then ''https:'' @ href else href)
      in case normalize_url urljoin (page_url pg) href' of
           Inl e \<Rightarrow> href'
         | Inr u \<Rightarrow> u)"

subsection \<open>The submission period of a heading\<close>

fun walk_up_period :: "'h page \<Rightarrow> nat \<Rightarrow> 'h \<Rightarrow> 'h option" where
  "walk_up_period pg 0 ancestor = None"
| "walk_up_period pg (Suc k) ancestor =
     (case parent_element pg ancestor of
        Inl e \<Rightarrow> None
      | Inr None \<Rightarrow> None
      | Inr (Some parent) \<Rightarrow>
          (case query_selector pg parent ''div.submission-period'' of
             Inr (Some sp) \<Rightarrow> Some sp
           | _ \<Rightarrow> walk_up_period pg k parent))"

text \<open>The inner \<open>try\<close> over the elements with \<open>data-iso-date\<close>: an exception keeps what was
  assigned before it.\<close>

definition read_dates :: "'h page \<Rightarrow> 'h \<Rightarrow> string option \<times> string option" where
  "read_dates pg sp =
     (case query_selector_all pg sp ''[data-iso-date]'' of
        Inl e \<Rightarrow> (None, None)
      | Inr dates \<Rightarrow>
          (case dates of
             [] \<Rightarrow> (None, None)
           | d0 # rest \<Rightarrow>
               (case get_attribute pg d0 ''data-iso-date'' of
                  Inl e \<Rightarrow> (None, None)
                | Inr b \<Rightarrow>
                    (case rest of
                       [] \<Rightarrow> (b, None)
                     | d1 # rest' \<Rightarrow>
                         (case get_attribute pg d1 ''data-iso-date'' of
                            Inl e \<Rightarrow> (b, None)
                          | Inr en \<Rightarrow> (b, en))))))"

definition submission_info ::
  "'h page \<Rightarrow> 'h \<Rightarrow> string option \<times> string option \<times> string option" where
  "submission_info pg h3 =
     (case walk_up_period pg 6 h3 of
        None \<Rightarrow> (None, None, None)
      | Some sp \<Rightarrow>
          (case text_content pg sp of
             Inl e \<Rightarrow> (None, None, None)
           | Inr t \<Rightarrow>
               (case read_dates pg sp of (b, en) \<Rightarrow> (Some (text_or_empty t), b, en))))"

subsection \<open>\<open>extract_listing_items\<close>\<close>

definition heading_title :: "'h page \<Rightarrow> 'h \<Rightarrow> string" where
  "heading_title pg h3 = (case text_content pg h3 of Inl e \<Rightarrow> [] | Inr t \<Rightarrow> text_or_empty t)"

definition make_entry :: "'h page \<Rightarrow> 'h \<Rightarrow> string \<Rightarrow> entry" where
  "make_entry pg h3 u =
     (case submission_info pg h3 of
        (sp, b, en) \<Rightarrow>
          \<lparr>e_title = heading_title pg h3, e_url = u, e_submission_period = sp,
           e_begins_iso = b, e_ends_iso = en\<rparr>)"

text \<open>The loop over the headings, with the set \<open>seen\<close> of the URLs of the entries made so
  far; the entries come in the order of their headings.\<close>

fun listing_loop ::
  "(string \<Rightarrow> string \<Rightarrow> pyerr + string) \<Rightarrow> 'h page \<Rightarrow> 'h list \<Rightarrow> string set \<Rightarrow> entry list" where
  "listing_loop urljoin pg [] seen = []"
| "listing_loop urljoin pg (h3 # hs) seen =
     (case find_href pg h3 of
        None \<Rightarrow> listing_loop urljoin pg hs seen
      | Some href \<Rightarrow>
          if href = [] then listing_loop urljoin pg hs seen
          else
            (let u = resolve_url urljoin pg href
             in if u = [] \<or> u \<in> seen then listing_loop urljoin pg hs seen
                else make_entry pg h3 u # listing_loop urljoin pg hs (insert u seen)))"

definition listing_headings :: "'h page \<Rightarrow> 'h list" where
  "listing_headings pg =
     (case page_query_selector_all pg ''h3[data-v-64e017b4]'' of Inl e \<Rightarrow> [] | Inr hs \<Rightarrow> hs)"

definition extract_listing_items ::
  "(string \<Rightarrow> string \<Rightarrow> pyerr + string) \<Rightarrow> 'h page \<Rightarrow> entry list" where
  "extract_listing_items urljoin pg = listing_loop urljoin pg (listing_headings pg) {}"

subsection \<open>The separator of the fallback period\<close>

text \<open>The em-dash separator \<open>" \<emdash> "\<close> of the source is outside the 8-bit characters; it
  is given by its UTF-8 bytes.\<close>

definition em_dash_sep :: string where
  "em_dash_sep = [CHR 0x20, CHR 0xE2, CHR 0x80, CHR 0x94, CHR 0x20]"

subsection \<open>The resolved URL of a heading\<close>

text \<open>The URL under which a heading can enter the result: its \<open>href\<close> was found and is
  not empty, and the normalised URL is not empty.\<close>

definition heading_url ::
  "(string \<Rightarrow> string \<Rightarrow> pyerr + string) \<Rightarrow> 'h page \<Rightarrow> 'h \<Rightarrow> string option" where
  "heading_url urljoin pg h3 =
     (case find_href pg h3 of
        None \<Rightarrow> None
      | Some href \<Rightarrow>
          if href \<noteq> [] \<and> resolve_url urljoin pg href \<noteq> []
          then Some (resolve_url urljoin pg href) else None)"

section \<open>The orchestrator\<close>

subsection \<open>The collaborators\<close>

text \<open>
  The library functions of the run, and the browser: \<open>goto u\<close> is the page that
  \<open>context.new_page()\<close> followed by \<open>page.goto(u, timeout=...)\<close> loads, or the exception
  that it raises (\<open>PlaywrightTimeoutError\<close> for a timeout); \<open>utcnow i\<close> is the value that
  the clock returns while entry number \<open>i\<close> is processed. Launching and closing the
  browser are left out.
\<close>

record pylib =
  lib_fromisoformat :: "string \<Rightarrow> pyerr + pydatetime"
  lib_urlparse :: "string \<Rightarrow> pyerr + parse_result"
  lib_urljoin :: "string \<Rightarrow> string \<Rightarrow> pyerr + string"

record 'h browser =
  goto :: "string \<Rightarrow> pyerr + 'h page"
  utcnow :: "nat \<Rightarrow> pydatetime"

text \<open>The document that is upserted and returned.\<close>

record ingested =
  d_id :: string
  d_name :: string
  d_submission_period :: "string option"
  d_status :: string

definition doc_value :: "ingested \<Rightarrow> pyval" where
  "doc_value d =
     PDict [(''id'', PStr (d_id d)), (''name'', PStr (d_name d)),
            (''submission_period'',
               (case d_submission_period d of None \<Rightarrow> PNone | Some s \<Rightarrow> PStr s)),
            (''status'', PStr (d_status d))]"

subsection \<open>Enrichment from the detail page\<close>

text \<open>The \<open>h1\<close> of the detail page replaces the name when its stripped text is not empty;
  an exception leaves the name.\<close>

definition detail_name :: "'h page \<Rightarrow> string \<Rightarrow> string" where
  "detail_name dp name =
     (case page_query_selector dp ''h1'' of
        Inl e \<Rightarrow> name
      | Inr None \<Rightarrow> name
      | Inr (Some h1) \<Rightarrow>
          (case text_content dp h1 of
             Inl e \<Rightarrow> name
           | Inr t \<Rightarrow> if text_or_empty t \<noteq> [] then text_or_empty t else name))"

text \<open>The first two \<open>td[data-iso-date]\<close> cells replace the begin and the end when their
  attribute is truthy (\<open>x or begins_iso\<close>); an exception keeps what was assigned before it.\<close>

definition detail_dates ::
  "'h page \<Rightarrow> string option \<times> string option \<Rightarrow> string option \<times> string option" where
  "detail_dates dp be =
     (case be of (b, en) \<Rightarrow>
        (case page_query_selector_all dp ''td[data-iso-date]'' of
           Inl e \<Rightarrow> (b, en)
         | Inr tds \<Rightarrow>
             (case tds of
                [] \<Rightarrow> (b, en)
              | t0 # rest \<Rightarrow>
                  (case get_attribute dp t0 ''data-iso-date'' of
                     Inl e \<Rightarrow> (b, en)
                   | Inr v0 \<Rightarrow>
                       (let b' = (if str_truthy v0 then v0 else b)
                        in case rest of
                             [] \<Rightarrow> (b', en)
                           | t1 # rest' \<Rightarrow>
                               (case get_attribute dp t1 ''data-iso-date'' of
                                  Inl e \<Rightarrow> (b', en)
                                | Inr v1 \<Rightarrow> (b', if str_truthy v1 then v1 else en)))))))"

text \<open>The name and the dates after the visit of the detail page. Without a URL there is
  no visit; a timeout of the navigation keeps the listing's values; any other exception
  of the navigation leaves the \<open>try\<close> and ends the entry.\<close>

definition enrich ::
  "'h browser \<Rightarrow> entry \<Rightarrow> pyerr + string \<times> string option \<times> string option" where
  "enrich br it =
     (if e_url it = [] then Inr (e_title it, e_begins_iso it, e_ends_iso it)
      else
        (case goto br (e_url it) of
           Inl e \<Rightarrow>
             if e = PlaywrightTimeoutError then Inr (e_title it, e_begins_iso it, e_ends_iso it)
             else Inl e
         | Inr dp \<Rightarrow>
             (case detail_dates dp (e_begins_iso it, e_ends_iso it) of
                (b, en) \<Rightarrow> Inr (detail_name dp (e_title it), b, en))))"

subsection \<open>Assembling the document\<close>

definition truthy_part :: "string option \<Rightarrow> string list" where
  "truthy_part x = (case x of None \<Rightarrow> [] | Some s \<Rightarrow> if s \<noteq> [] then [s] else [])"

definition fallback_period :: "string option \<Rightarrow> string option \<Rightarrow> string option" where
  "fallback_period b en =
     (let parts = truthy_part b @ truthy_part en
      in if parts \<noteq> [] then Some (join_with em_dash_sep parts) else None)"

definition assemble ::
  "pylib \<Rightarrow> pydatetime \<Rightarrow> entry \<Rightarrow> string \<Rightarrow> string option \<Rightarrow> string option \<Rightarrow> pyerr + ingested" where
  "assemble lib now it name b en =
     (let sp = (if str_truthy (e_submission_period it) then e_submission_period it
                else fallback_period b en)
      in bind (determine_status_from_iso (lib_fromisoformat lib) now b en) (\<lambda>status.
         bind (if e_url it \<noteq> [] then slug_from_url (lib_urlparse lib) (e_url it) else Inr name)
           (\<lambda>ident.
         Inr \<lparr>d_id = ident, d_name = name, d_submission_period = sp, d_status = status\<rparr>)))"

subsection \<open>\<open>scrape_all_from_listing\<close>\<close>

text \<open>One round of the loop: the document, upserted with every exception of the upsert
  caught, or the exception that ended the round.\<close>

definition process_item ::
  "pylib \<Rightarrow> 'h browser \<Rightarrow> server \<Rightarrow> nat \<Rightarrow> entry \<Rightarrow> world \<Rightarrow> (pyerr + ingested) \<times> world" where
  "process_item lib br srv idx it w =
     (case enrich br it of
        Inl e \<Rightarrow> (Inl e, w)
      | Inr (name, b, en) \<Rightarrow>
          (case assemble lib (utcnow br idx) it name b en of
             Inl e \<Rightarrow> (Inl e, w)
           | Inr doc \<Rightarrow> (Inr doc, snd (upsert_hackathon srv (doc_value doc) w))))"

text \<open>The loop: a round that raised adds nothing to the results.\<close>

fun scrape_items ::
  "pylib \<Rightarrow> 'h browser \<Rightarrow> server \<Rightarrow> nat \<Rightarrow> entry list \<Rightarrow> world \<Rightarrow> ingested list \<times> world" where
  "scrape_items lib br srv idx [] w = ([], w)"
| "scrape_items lib br srv idx (it # its) w =
     (case process_item lib br srv idx it w of
        (Inl e, w1) \<Rightarrow> scrape_items lib br srv (Suc idx) its w1
      | (Inr doc, w1) \<Rightarrow>
          (case scrape_items lib br srv (Suc idx) its w1 of
             (docs, w2) \<Rightarrow> (doc # docs, w2)))"

definition scrape_all_from_listing ::
  "pylib \<Rightarrow> 'h browser \<Rightarrow> server \<Rightarrow> string \<Rightarrow> int \<Rightarrow> world \<Rightarrow> (pyerr + ingested list) \<times> world" where
  "scrape_all_from_listing lib br srv listing_url limit w =
     (case goto br listing_url of
        Inl e \<Rightarrow> (Inl e, w)
      | Inr pg \<Rightarrow>
          (let found = extract_listing_items (lib_urljoin lib) pg;
               todo = (if limit > 0 then take (nat limit) found else found)
           in case scrape_items lib br srv 1 todo w of
                (docs, w') \<Rightarrow> (Inr docs, w')))"

section \<open>A document tree for the examples\<close>

text \<open>
  A page given by its element tree. A handle is the path of child indices from the root
  element. The selectors are the ones the program uses. Every call succeeds, except on a
  handle that is not in the tree.
\<close>

datatype node =
    Text string
  | Elem string "(string \<times> string) list" "node list"

primrec node_at :: "nat list \<Rightarrow> node \<Rightarrow> node option" where
  "node_at [] n = Some n"
| "node_at (i # p) n =
     (case n of
        Text t \<Rightarrow> None
      | Elem tg at cs \<Rightarrow> if i < length cs then node_at p (cs ! i) else None)"

fun paths_of :: "node \<Rightarrow> nat list list"
  and paths_of_children :: "nat \<Rightarrow> node list \<Rightarrow> nat list list" where
  "paths_of (Text t) = [[]]"
| "paths_of (Elem tg at cs) = [] # paths_of_children 0 cs"
| "paths_of_children i [] = []"
| "paths_of_children i (c # cs) = map ((#) i) (paths_of c) @ paths_of_children (Suc i) cs"

fun text_of :: "node \<Rightarrow> string" where
  "text_of (Text t) = t"
| "text_of (Elem tg at cs) = concat (map text_of cs)"

definition class_tokens :: "(string \<times> string) list \<Rightarrow> string list" where
  "class_tokens at =
     (case map_of at ''class'' of
        None \<Rightarrow> []
      | Some v \<Rightarrow> filter (\<lambda>t. t \<noteq> []) (split_char (CHR '' '') v))"

definition sel_matches :: "string \<Rightarrow> node \<Rightarrow> bool" where
  "sel_matches sel n =
     (case n of
        Text t \<Rightarrow> False
      | Elem tg at cs \<Rightarrow>
          if sel = ''a'' then tg = ''a''
          else if sel = ''a[href]'' then tg = ''a'' \<and> map_of at ''href'' \<noteq> None
          else if sel = ''h1'' then tg = ''h1''
          else if sel = ''h3[data-v-64e017b4]'' then tg = ''h3'' \<and> map_of at ''data-v-64e017b4'' \<noteq> None
          else if sel = ''div.submission-period''
            then tg = ''div'' \<and> ''submission-period'' \<in> set (class_tokens at)
          else if sel = ''[data-iso-date]'' then map_of at ''data-iso-date'' \<noteq> None
          else if sel = ''td[data-iso-date]'' then tg = ''td'' \<and> map_of at ''data-iso-date'' \<noteq> None
          else False)"

definition matching_below :: "node \<Rightarrow> bool \<Rightarrow> nat list \<Rightarrow> string \<Rightarrow> pyerr + nat list list" where
  "matching_below root self h sel =
     (case node_at h root of
        None \<Rightarrow> Inl OtherError
      | Some n \<Rightarrow>
          Inr (map ((@) h)
                 (filter (\<lambda>q. (self \<or> q \<noteq> [])
                               \<and> (case node_at q n of None \<Rightarrow> False | Some m \<Rightarrow> sel_matches sel m))
                    (paths_of n))))"

definition first_of :: "pyerr + 'a list \<Rightarrow> pyerr + 'a option" where
  "first_of r = bind r (\<lambda>xs. Inr (case xs of [] \<Rightarrow> None | x # rest \<Rightarrow> Some x))"

definition dom_page :: "string \<Rightarrow> node \<Rightarrow> (nat list) page" where
  "dom_page u root =
     \<lparr>page_url = u,
      page_query_selector = (\<lambda>sel. first_of (matching_below root True [] sel)),
      page_query_selector_all = (\<lambda>sel. matching_below root True [] sel),
      query_selector = (\<lambda>h sel. first_of (matching_below root False h sel)),
      query_selector_all = (\<lambda>h sel. matching_below root False h sel),
      text_content =
        (\<lambda>h. case node_at h root of None \<Rightarrow> Inl OtherError | Some n \<Rightarrow> Inr (Some (text_of n))),
      get_attribute =
        (\<lambda>h name. case node_at h root of
                     Some (Elem tg at cs) \<Rightarrow> Inr (map_of at name)
                   | _ \<Rightarrow> Inl OtherError),
      parent_element = (\<lambda>h. Inr (if h = [] then None else Some (butlast h)))\<rparr>"

text \<open>The library of the examples, and a small listing: two headings whose anchors
  name the same hackathon, once with a protocol-relative and once with an absolute
  address; a heading without any anchor within four ancestors; and a card whose anchor
  wraps the heading, with a relative address and a submission period.\<close>

definition lib_model :: pylib where
  "lib_model =
     \<lparr>lib_fromisoformat = fromisoformat_model, lib_urlparse = urlparse_model,
      lib_urljoin = urljoin_model\<rparr>"

definition card :: "node list \<Rightarrow> node" where
  "card cs = Elem ''div'' [(''class'', ''hackathon-tile'')] cs"

definition heading :: "node list \<Rightarrow> node" where
  "heading cs = Elem ''h3'' [(''data-v-64e017b4'', [])] cs"

definition listing_root :: node where
  "listing_root =
     Elem ''html'' []
       [Elem ''body'' []
          [card [heading [Elem ''a'' [(''href'', ''//alpha.devpost.com/'')] [Text '' Alpha Hack '']]],
           card [heading [Elem ''a'' [(''href'', ''https://alpha.devpost.com/'')] [Text ''Alpha'']]],
           Elem ''section'' [] [Elem ''section'' [] [Elem ''section'' [] [Elem ''section'' []
             [Elem ''section'' [] [heading [Text ''No link'']]]]]],
           card [Elem ''a'' [(''href'', ''/hackathons/beta-jam/'')] [heading [Text ''Beta Jam'']],
                 Elem ''div'' [(''class'', ''info submission-period'')]
                   [Elem ''span'' [(''data-iso-date'', ''2030-01-01T00:00:00Z'')] [Text ''Jan 01''],
                    Text '' - soon '']]]]"

definition listing_page :: "(nat list) page" where
  "listing_page = dom_page ''https://devpost.com/hackathons'' listing_root"

definition detail_root :: node where
  "detail_root = Elem ''html'' [] [Elem ''body'' [] [Elem ''p'' [] [Text ''Welcome'']]]"

text \<open>A second listing, of the one card with the submission period.\<close>

definition single_root :: node where
  "single_root =
     Elem ''html'' []
       [Elem ''body'' []
          [card [Elem ''a'' [(''href'', ''/hackathons/beta-jam/'')] [heading [Text ''Beta Jam'']],
                 Elem ''div'' [(''class'', ''info submission-period'')]
                   [Elem ''span'' [(''data-iso-date'', ''2030-01-01T00:00:00Z'')] [Text ''Jan 01''],
                    Text '' - soon '']]]]"

definition single_page :: "(nat list) page" where
  "single_page = dom_page ''https://devpost.com/hackathons?page=2'' single_root"

text \<open>The browser of the examples: the two listings, the detail page of the hackathon
  \<open>beta-jam\<close>, and a timeout for every other address.\<close>

definition browser_model :: "(nat list) browser" where
  "browser_model =
     \<lparr>goto = (\<lambda>u. if u = ''https://devpost.com/hackathons'' then Inr listing_page
                    else if u = ''https://devpost.com/hackathons?page=2'' then Inr single_page
                    else if u = ''https://devpost.com/hackathons/beta-jam/''
                      then Inr (dom_page u detail_root)
                    else Inl PlaywrightTimeoutError),
      utcnow = (\<lambda>i. now_example)\<rparr>"

text \<open>A listing of two headings that name the same hackathon, a page whose query for the
  headings raises, and two entries as the listing gives them: one with the listing's
  text, one without text and without URL.\<close>

definition pair_root :: node where
  "pair_root =
     Elem ''html'' []
       [Elem ''body'' []
          [card [heading [Elem ''a'' [(''href'', ''//alpha.devpost.com/'')] [Text ''Alpha Hack'']]],
           card [heading [Elem ''a'' [(''href'', ''https://alpha.devpost.com/'')] [Text ''Alpha'']]]]]"

definition pair_page :: "(nat list) page" where
  "pair_page = dom_page ''https://devpost.com/hackathons'' pair_root"

definition broken_page :: "(nat list) page" where
  "broken_page = listing_page\<lparr>page_query_selector_all := (\<lambda>sel. Inl OtherError)\<rparr>"

definition beta_entry :: entry where
  "beta_entry =
     \<lparr>e_title = ''Beta Jam'', e_url = ''https://devpost.com/hackathons/beta-jam/'',
      e_submission_period = Some ''Jan 01 - soon'',
      e_begins_iso = Some ''2030-01-01T00:00:00Z'', e_ends_iso = None\<rparr>"

definition bare_entry :: entry where
  "bare_entry =
     \<lparr>e_title = ''Gamma Fest'', e_url = [], e_submission_period = Some [],
      e_begins_iso = Some ''2030-01-01T00:00:00Z'', e_ends_iso = None\<rparr>"

section \<open>Auxiliary notions for the proofs\<close>

text \<open>The characters an expression can read: no match reads a character outside
  \<open>rchars\<close>.\<close>

fun rchars :: "regex \<Rightarrow> char \<Rightarrow> bool" where
  "rchars Eps c = False"
| "rchars (Set cs) c = (c \<in> set cs)"
| "rchars (Word w) c = (lower_char c \<in> set (map lower_char w))"
| "rchars Spaces c = isspace c"
| "rchars (Seq a b) c = (rchars a c \<or> rchars b c)"
| "rchars (Or a b) c = (rchars a c \<or> rchars b c)"
| "rchars (Group n a) c = rchars a c"

section \<open>Verification: the date parser\<close>

lemma spaces_alts_mem:
  "(g, r) \<in> set (spaces_alts s n) \<Longrightarrow> \<exists>k. 0 < k \<and> k \<le> n \<and> r = drop k s \<and> g = []"
  by (induction n) (auto intro: le_SucI)

lemma takeWhile_prefix_all:
  "k \<le> length (takeWhile P s) \<Longrightarrow> \<forall>c\<in>set (take k s). P c"
proof (induction s arbitrary: k)
  case Nil
  then show ?case by simp
next
  case (Cons x xs)
  then show ?case by (cases k) (auto split: if_splits)
qed

lemma rmatch_Seq_mem:
  "(g, r) \<in> set (rmatch (Seq a b) s) \<longleftrightarrow>
   (\<exists>g1 r1 g2. (g1, r1) \<in> set (rmatch a s) \<and> (g2, r) \<in> set (rmatch b r1) \<and> g = g1 @ g2)"
  by (simp add: image_iff split_beta) force

lemma rmatch_consumes:
  "(g, r) \<in> set (rmatch re s) \<Longrightarrow> \<exists>p. s = p @ r \<and> list_all (rchars re) p"
proof (induction re arbitrary: s g r)
  case Eps
  then show ?case by simp
next
  case (Set cs)
  then show ?case by (cases s) (auto split: if_splits)
next
  case (Word w)
  then have r: "r = drop (length w) s" and l: "length w \<le> length s"
    and m: "map lower_char (take (length w) s) = map lower_char w"
    by (auto split: if_splits)
  have "s = take (length w) s @ r" using r by simp
  moreover have "list_all (rchars (Word w)) (take (length w) s)"
  proof -
    have "\<forall>x\<in>set (take (length w) s). lower_char x \<in> set (map lower_char w)"
      using m by (metis image_eqI list.set_map)
    then show ?thesis by (simp add: list_all_iff)
  qed
  ultimately show ?case by blast
next
  case Spaces
  from Spaces have "(g, r) \<in> set (spaces_alts s (length (takeWhile isspace s)))" by simp
  from spaces_alts_mem[OF this]
  obtain k where k: "0 < k" "k \<le> length (takeWhile isspace s)" "r = drop k s"
    by blast
  have "s = take k s @ r" using k by simp
  moreover have "list_all (rchars Spaces) (take k s)"
    using takeWhile_prefix_all[OF k(2)] by (simp add: list_all_iff)
  ultimately show ?case by blast
next
  case (Seq a b)
  from Seq.prems obtain g1 r1 g2 where m1: "(g1, r1) \<in> set (rmatch a s)"
    and m2: "(g2, r) \<in> set (rmatch b r1)"
    unfolding rmatch_Seq_mem by blast
  from Seq.IH(1)[OF m1] obtain p1 where p1: "s = p1 @ r1" "list_all (rchars a) p1" by blast
  from Seq.IH(2)[OF m2] obtain p2 where p2: "r1 = p2 @ r" "list_all (rchars b) p2" by blast
  have "s = (p1 @ p2) @ r" using p1 p2 by simp
  moreover have "list_all (rchars (Seq a b)) (p1 @ p2)"
    using p1 p2 by (auto simp: list_all_iff)
  ultimately show ?case by blast
next
  case (Or a b)
  from Or.prems have "(g, r) \<in> set (rmatch a s) \<or> (g, r) \<in> set (rmatch b s)" by simp
  then show ?case
  proof
    assume "(g, r) \<in> set (rmatch a s)"
    from Or.IH(1)[OF this] show ?thesis by (auto simp: list_all_iff)
  next
    assume "(g, r) \<in> set (rmatch b s)"
    from Or.IH(2)[OF this] show ?thesis by (auto simp: list_all_iff)
  qed
next
  case (Group n a)
  from Group.prems obtain g' where "(g', r) \<in> set (rmatch a s)" by auto
  from Group.IH[OF this] show ?case by simp
qed

lemma lower_char_upper:
  assumes "65 \<le> (of_char c :: nat)" "(of_char c :: nat) \<le> 90"
  shows "ascii_alpha (lower_char c)"
proof -
  have "(of_char (char_of ((of_char c :: nat) + 32)) :: nat) = of_char c + 32"
    using assms by (simp add: of_char_of)
  then show ?thesis using assms by (simp add: lower_char_def ascii_alpha_def Let_def)
qed

lemma lower_char_eq: "lower_char x = lower_char c \<Longrightarrow> x = c \<or> ascii_alpha x"
proof -
  assume eq: "lower_char x = lower_char c"
  show ?thesis
  proof (cases "65 \<le> (of_char x :: nat) \<and> (of_char x :: nat) \<le> 90")
    case True
    then show ?thesis by (simp add: ascii_alpha_def)
  next
    case False
    then have x: "lower_char x = x" by (auto simp: lower_char_def Let_def)
    show ?thesis
    proof (cases "65 \<le> (of_char c :: nat) \<and> (of_char c :: nat) \<le> 90")
      case True
      then have "ascii_alpha (lower_char c)" using lower_char_upper by simp
      then show ?thesis using eq x by simp
    next
      case False
      then have "lower_char c = c" by (auto simp: lower_char_def Let_def)
      then show ?thesis using eq x by simp
    qed
  qed
qed

lemma rchars_word: "rchars (Word w) x \<Longrightarrow> x \<in> set w \<or> ascii_alpha x"
  using lower_char_eq by auto

lemma rchars_alts: "rchars (alts rs) x \<Longrightarrow> \<exists>r\<in>set rs. rchars r x"
  unfolding alts_def by (induction rs) auto

lemma month_names_alpha:
  "\<forall>w\<in>set (a_month @ f_month_longest_first). \<forall>c\<in>set w. ascii_alpha c"
  by (simp add: a_month_def f_month_longest_first_def ascii_alpha_def)

lemma rchars_directive:
  assumes "directive d = Some re" and "rchars re x"
  shows "ascii_alpha x \<or> isdigit x \<or> x = CHR '' ''"
proof -
  consider "d = CHR ''Y''" | "d = CHR ''m''" | "d = CHR ''d''" | "d = CHR ''b''" | "d = CHR ''B''"
    using assms(1) by (auto simp: directive_def split: if_splits)
  then show ?thesis
  proof cases
    case 1
    with assms show ?thesis by (auto simp: directive_def digit_def isdigit_def)
  next
    case 2
    with assms show ?thesis by (auto simp: directive_def digit_def alts_def isdigit_def)
  next
    case 3
    with assms show ?thesis by (auto simp: directive_def digit_def alts_def isdigit_def)
  next
    case 4
    with assms have "rchars (alts (map Word a_month)) x" by (auto simp: directive_def)
    from rchars_alts[OF this] obtain w where "w \<in> set a_month" "rchars (Word w) x" by auto
    then show ?thesis using month_names_alpha rchars_word by fastforce
  next
    case 5
    with assms have "rchars (alts (map Word f_month_longest_first)) x"
      by (auto simp: directive_def)
    from rchars_alts[OF this] obtain w where "w \<in> set f_month_longest_first" "rchars (Word w) x"
      by auto
    then show ?thesis using month_names_alpha rchars_word by fastforce
  qed
qed

lemma rchars_pattern:
  "pattern fmt = Some re \<Longrightarrow> rchars re x \<Longrightarrow>
   ascii_alpha x \<or> isdigit x \<or> isspace x \<or> x \<in> set fmt"
proof (induction fmt arbitrary: re rule: pattern.induct)
  case 1
  then show ?case by simp
next
  case (2 c cs)
  show ?case
  proof (cases "c = CHR ''%''")
    case True
    with "2.prems"(1) obtain d rest dre re' where cs: "cs = d # rest"
      and d: "directive d = Some dre" and r: "pattern rest = Some re'" and re: "re = Seq dre re'"
      by (auto split: list.splits option.splits)
    from "2.prems"(2) re have "rchars dre x \<or> rchars re' x" by simp
    then show ?thesis
    proof
      assume "rchars dre x"
      from rchars_directive[OF d this] show ?thesis by (auto simp: isspace_def)
    next
      assume "rchars re' x"
      from "2.IH"(1)[OF True cs d r this] show ?thesis using cs by auto
    qed
  next
    case False
    show ?thesis
    proof (cases "isspace c")
      case True
      with False "2.prems"(1) obtain re' where r: "pattern (dropWhile isspace cs) = Some re'"
        and re: "re = Seq Spaces re'" by auto
      from "2.prems"(2) re have "isspace x \<or> rchars re' x" by simp
      then show ?thesis
      proof
        assume "isspace x" then show ?thesis by simp
      next
        assume "rchars re' x"
        from "2.IH"(2)[OF False True r this] show ?thesis
          by (auto dest: set_dropWhileD)
      qed
    next
      case nsp: False
      with False "2.prems"(1) obtain re' where r: "pattern cs = Some re'"
        and re: "re = Seq (Word [c]) re'" by auto
      from "2.prems"(2) re have "rchars (Word [c]) x \<or> rchars re' x" by simp
      then show ?thesis
      proof
        assume "rchars (Word [c]) x"
        from rchars_word[OF this] show ?thesis by auto
      next
        assume "rchars re' x"
        from "2.IH"(3)[OF False nsp r this] show ?thesis by auto
      qed
    qed
  qed
qed

lemma colon_class:
  "\<not> ascii_alpha (CHR '':'')" "\<not> isdigit (CHR '':'')" "\<not> isspace (CHR '':'')"
  by (simp_all add: ascii_alpha_def isdigit_def isspace_def)

lemma strptime_colon:
  assumes c: "CHR '':'' \<in> set s" and f: "CHR '':'' \<notin> set fmt"
  shows "strptime s fmt = Inl ValueError"
proof (cases "pattern fmt")
  case None
  then show ?thesis by (simp add: strptime_def)
next
  case (Some re)
  have nc: "\<not> rchars re (CHR '':'')"
    using rchars_pattern[OF Some] colon_class f by blast
  show ?thesis
  proof (cases "rmatch re s")
    case Nil
    then show ?thesis by (simp add: strptime_def Some)
  next
    case (Cons x xs)
    obtain g r where x: "x = (g, r)" by (cases x)
    have "(g, r) \<in> set (rmatch re s)" using Cons x by simp
    from rmatch_consumes[OF this] obtain p where p: "s = p @ r" "list_all (rchars re) p"
      by blast
    have "r \<noteq> []"
    proof
      assume "r = []"
      then have "CHR '':'' \<in> set p" using p c by simp
      then have "rchars re (CHR '':'')" using p(2) by (simp add: list_all_iff)
      then show False using nc by simp
    qed
    then show ?thesis by (simp add: strptime_def Some Cons x)
  qed
qed


lemma isoformat_colon: "CHR '':'' \<in> set (isoformat dt)"
  by (simp add: isoformat_def)

lemma strptime_midnight: "strptime s fmt = Inr dt \<Longrightarrow> \<exists>y m d. dt = midnight y m d"
  by (auto simp: strptime_def split: option.splits list.splits if_splits prod.splits)

lemma digit_char_not_space: "\<not> isspace (digit_char k)"
proof -
  have "48 + k mod 10 < 256" by simp
  then have "(of_char (char_of (48 + k mod 10)) :: nat) = 48 + k mod 10"
    by (simp add: of_char_of)
  moreover have "k mod 10 < 10" by simp
  ultimately show ?thesis unfolding isspace_def digit_char_def Let_def by arith
qed

lemma str_nat_chars: "str_nat n \<noteq> [] \<and> (\<forall>c\<in>set (str_nat n). \<not> isspace c)"
proof (induction n rule: str_nat.induct)
  case (1 n)
  show ?case
  proof (cases "n < 10")
    case True
    then show ?thesis by (simp add: str_nat.simps[of n] digit_char_not_space)
  next
    case False
    with 1 show ?thesis by (simp add: str_nat.simps[of n] digit_char_not_space)
  qed
qed

lemma zfill_chars: "zfill w n \<noteq> [] \<and> (\<forall>c\<in>set (zfill w n). \<not> isspace c)"
  using str_nat_chars[of n] by (auto simp: zfill_def isspace_def)

lemma strip_id:
  assumes "s \<noteq> []" "\<not> isspace (hd s)" "\<not> isspace (last s)"
  shows "strip s = s"
proof -
  have l: "lstrip s = s" using assms by (cases s) (simp_all add: lstrip_def)
  have "rev s \<noteq> []" "\<not> isspace (hd (rev s))" using assms by (simp_all add: hd_rev)
  then have "dropWhile isspace (rev s) = rev s" by (cases "rev s") simp_all
  then show ?thesis by (simp add: strip_def rstrip_def l)
qed

lemma strip_isoformat_midnight: "strip (isoformat (midnight y m d)) = isoformat (midnight y m d)"
proof -
  let ?s = "isoformat (midnight y m d)"
  obtain a as where a: "zfill 4 y = a # as" using zfill_chars[of 4 y] by (cases "zfill 4 y") auto
  have na: "\<not> isspace a" using zfill_chars[of 4 y] a by simp
  have hd: "?s \<noteq> [] \<and> \<not> isspace (hd ?s)"
    using a na by (simp add: isoformat_def midnight_def)
  have "last ?s = last (zfill 2 0)"
    using zfill_chars[of 2 0] by (simp add: isoformat_def midnight_def)
  moreover have "last (zfill 2 0) \<in> set (zfill 2 0)" using zfill_chars[of 2 0] by simp
  ultimately have "\<not> isspace (last ?s)" using zfill_chars[of 2 0] by metis
  with hd show ?thesis by (simp add: strip_id)
qed

lemma strip_idem: "strip (strip s) = strip s"
proof (cases "strip s = []")
  case True
  have "strip [] = []" by (simp add: strip_def lstrip_def rstrip_def)
  with True show ?thesis by simp
next
  case False
  let ?t = "lstrip s"
  have t: "?t \<noteq> []" using False by (auto simp: strip_def rstrip_def)
  have ht: "\<not> isspace (hd ?t)" using t unfolding lstrip_def by (rule hd_dropWhile)
  let ?u = "strip s"
  have u_def: "?u = rev (dropWhile isspace (rev ?t))" by (simp add: strip_def rstrip_def)
  have lu: "\<not> isspace (last ?u)"
  proof -
    have "dropWhile isspace (rev ?t) \<noteq> []" using False u_def by simp
    then have "\<not> isspace (hd (dropWhile isspace (rev ?t)))" by (rule hd_dropWhile)
    then show ?thesis using False u_def by (simp add: last_rev)
  qed
  have "\<exists>zs. ?t = ?u @ zs"
  proof -
    have "rev ?t = takeWhile isspace (rev ?t) @ dropWhile isspace (rev ?t)" by simp
    then have "?t = rev (dropWhile isspace (rev ?t)) @ rev (takeWhile isspace (rev ?t))"
      by (metis rev_append rev_rev_ident)
    then show ?thesis using u_def by metis
  qed
  then obtain zs where "?t = ?u @ zs" by blast
  then have "hd ?t = hd ?u" using False by (metis hd_append2)
  then have hu: "\<not> isspace (hd ?u)" using ht by simp
  from strip_id[OF False hu lu] show ?thesis .
qed

lemma try_formats_cases:
  "(try_formats t fmts = t \<and> (\<forall>f\<in>set fmts. isl (strptime t f)))
   \<or> (\<exists>y m d. try_formats t fmts = isoformat (midnight y m d))"
proof (induction fmts)
  case Nil
  then show ?case by simp
next
  case (Cons f fmts)
  show ?case
  proof (cases "strptime t f")
    case (Inl e)
    with Cons show ?thesis by auto
  next
    case (Inr dt)
    from strptime_midnight[OF this] Inr show ?thesis by auto
  qed
qed

lemma try_formats_all_fail:
  "\<forall>f\<in>set fmts. isl (strptime t f) \<Longrightarrow> try_formats t fmts = t"
  by (induction fmts) (auto split: sum.splits)

lemma date_formats_no_colon: "\<forall>f\<in>set date_formats. CHR '':'' \<notin> set f"
  by (simp add: date_formats_def)

lemma parse_iso_date_isoformat:
  "parse_iso_date (isoformat (midnight y m d)) = isoformat (midnight y m d)"
proof -
  have "\<forall>f\<in>set date_formats. isl (strptime (isoformat (midnight y m d)) f)"
    using strptime_colon[OF isoformat_colon] date_formats_no_colon by simp
  from try_formats_all_fail[OF this] show ?thesis
    by (simp add: parse_iso_date_def strip_isoformat_midnight)
qed

text \<open>
  Claim C9. \<open>parse_iso_date\<close> is idempotent: applying it to its own result changes
  nothing, for every input text. A successful parse is rendered with a colon, which no
  format can read, and is free of outer white space; a failed parse returns the stripped
  text, on which the second call fails in the same way.
\<close>

theorem parse_iso_date_idempotent: "parse_iso_date (parse_iso_date s) = parse_iso_date s"
proof -
  let ?t = "strip s"
  from try_formats_cases[of ?t date_formats] show ?thesis
  proof
    assume a: "try_formats ?t date_formats = ?t \<and> (\<forall>f\<in>set date_formats. isl (strptime ?t f))"
    then have "parse_iso_date s = ?t" by (simp add: parse_iso_date_def)
    moreover have "parse_iso_date ?t = ?t" using a by (simp add: parse_iso_date_def strip_idem)
    ultimately show ?thesis by simp
  next
    assume "\<exists>y m d. try_formats ?t date_formats = isoformat (midnight y m d)"
    then obtain y m d where "parse_iso_date s = isoformat (midnight y m d)"
      by (auto simp: parse_iso_date_def)
    then show ?thesis by (simp add: parse_iso_date_isoformat)
  qed
qed


lemma try_formats_first:
  "i < length fmts \<Longrightarrow> strptime t (fmts ! i) = Inr dt \<Longrightarrow>
   (\<forall>j<i. isl (strptime t (fmts ! j))) \<Longrightarrow> try_formats t fmts = isoformat dt"
proof (induction fmts arbitrary: i)
  case Nil
  then show ?case by simp
next
  case (Cons f fmts)
  show ?case
  proof (cases i)
    case 0
    with Cons.prems show ?thesis by simp
  next
    case (Suc k)
    with Cons.prems have f: "isl (strptime t f)" by auto
    have "try_formats t fmts = isoformat dt"
    proof (rule Cons.IH)
      show "k < length fmts" using Cons.prems Suc by simp
      show "strptime t (fmts ! k) = Inr dt" using Cons.prems Suc by simp
      show "\<forall>j<k. isl (strptime t (fmts ! j))"
      proof (intro allI impI)
        fix j assume "j < k"
        then have "Suc j < i" using Suc by simp
        with Cons.prems(3) have "isl (strptime t ((f # fmts) ! Suc j))" by blast
        then show "isl (strptime t (fmts ! j))" by simp
      qed
    qed
    with f show ?thesis by (auto split: sum.splits)
  qed
qed

subsection \<open>What the five formats read\<close>

text \<open>
  Claim C4. \<open>parse_iso_date\<close> tries the five formats \<open>%Y-%m-%d\<close>, \<open>%d %b %Y\<close>,
  \<open>%d %B %Y\<close>, \<open>%b %d, %Y\<close>, \<open>%B %d, %Y\<close> in this order on the stripped text and returns
  the ISO-8601 rendering of the first parse that succeeds: when the format at index \<open>i\<close>
  succeeds and every earlier one raised, the result is that parse rendered by
  \<open>isoformat\<close>. When every format raises, the stripped text is returned. The text
  \<open>2024-03-15\<close> gives the timestamp of midnight of that day, \<open>2024-03-15T00:00:00\<close>, and
  \<open>not a date\<close> comes back unchanged. The function returns a text in every case.

  The tables give what is read from texts of each of the five kinds, in the order of the
  formats, for every month and for differing days and years; then month names in any
  case, runs of white space and white space around the text; last, texts that come back
  stripped because no format reads them: other shapes, days that the month does not
  have, years of other than four digits, text left over after the date.
\<close>

theorem parse_iso_date_first_success:
  "(\<forall>i dt. i < length date_formats \<and> strptime (strip s) (date_formats ! i) = Inr dt
        \<and> (\<forall>j<i. isl (strptime (strip s) (date_formats ! j)))
      \<longrightarrow> parse_iso_date s = isoformat dt)
   \<and> ((\<forall>fmt\<in>set date_formats. isl (strptime (strip s) fmt)) \<longrightarrow> parse_iso_date s = strip s)
   \<and> parse_iso_date ''2024-03-15'' = isoformat (midnight 2024 3 15)
   \<and> isoformat (midnight 2024 3 15) = ''2024-03-15T00:00:00''
   \<and> parse_iso_date ''not a date'' = ''not a date''
   \<and> date_formats = [''%Y-%m-%d'', ''%d %b %Y'', ''%d %B %Y'', ''%b %d, %Y'', ''%B %d, %Y'']
   \<and> map parse_iso_date
       [''2024-03-15'', ''1999-12-31'', ''2000-02-29'', ''2400-02-29'', ''0987-01-02'',
        ''2031-7-4'', ''2026-10-01'', ''  2024-03-15  '', ''9999-11-30'', ''0001-01-01'']
     = [''2024-03-15T00:00:00'', ''1999-12-31T00:00:00'', ''2000-02-29T00:00:00'',
        ''2400-02-29T00:00:00'', ''0987-01-02T00:00:00'', ''2031-07-04T00:00:00'',
        ''2026-10-01T00:00:00'', ''2024-03-15T00:00:00'', ''9999-11-30T00:00:00'',
        ''0001-01-01T00:00:00'']
   \<and> map parse_iso_date
       [''7 Jan 1999'', ''28 Feb 2023'', ''15 Mar 2024'', ''30 Apr 2025'', ''1 May 2026'',
        ''09 Jun 2027'', ''31 Jul 2028'', ''2 Aug 2029'', ''10 Sep 2030'', ''20 Oct 2031'',
        ''3 Nov 2032'', ''25 Dec 2033'']
     = [''1999-01-07T00:00:00'', ''2023-02-28T00:00:00'', ''2024-03-15T00:00:00'',
        ''2025-04-30T00:00:00'', ''2026-05-01T00:00:00'', ''2027-06-09T00:00:00'',
        ''2028-07-31T00:00:00'', ''2029-08-02T00:00:00'', ''2030-09-10T00:00:00'',
        ''2031-10-20T00:00:00'', ''2032-11-03T00:00:00'', ''2033-12-25T00:00:00'']
   \<and> map parse_iso_date
       [''8 January 2001'', ''29 February 2004'', ''16 March 2005'', ''29 April 2006'',
        ''31 May 2007'', ''1 June 2008'', ''4 July 2009'', ''19 August 2010'',
        ''30 September 2011'', ''11 October 2012'', ''05 November 2013'',
        ''24 December 2014'']
     = [''2001-01-08T00:00:00'', ''2004-02-29T00:00:00'', ''2005-03-16T00:00:00'',
        ''2006-04-29T00:00:00'', ''2007-05-31T00:00:00'', ''2008-06-01T00:00:00'',
        ''2009-07-04T00:00:00'', ''2010-08-19T00:00:00'', ''2011-09-30T00:00:00'',
        ''2012-10-11T00:00:00'', ''2013-11-05T00:00:00'', ''2014-12-24T00:00:00'']
   \<and> map parse_iso_date
       [''Jan 9, 1970'', ''Feb 1, 1980'', ''Mar 31, 1990'', ''Apr 2, 2000'',
        ''May 12, 2010'', ''Jun 30, 2020'', ''Jul 14, 1789'', ''Aug 08, 2022'',
        ''Sep 21, 2023'', ''Oct 31, 2024'', ''Nov 11, 1918'', ''Dec 1, 2025'']
     = [''1970-01-09T00:00:00'', ''1980-02-01T00:00:00'', ''1990-03-31T00:00:00'',
        ''2000-04-02T00:00:00'', ''2010-05-12T00:00:00'', ''2020-06-30T00:00:00'',
        ''1789-07-14T00:00:00'', ''2022-08-08T00:00:00'', ''2023-09-21T00:00:00'',
        ''2024-10-31T00:00:00'', ''1918-11-11T00:00:00'', ''2025-12-01T00:00:00'']
   \<and> map parse_iso_date
       [''January 31, 2015'', ''February 28, 1900'', ''March 1, 2016'', ''April 30, 2017'',
        ''May 5, 2018'', ''June 6, 1944'', ''July 20, 1969'', ''August 15, 2019'',
        ''September 1, 0987'', ''October 3, 2021'', ''November 30, 2022'',
        ''December 31, 9999'']
     = [''2015-01-31T00:00:00'', ''1900-02-28T00:00:00'', ''2016-03-01T00:00:00'',
        ''2017-04-30T00:00:00'', ''2018-05-05T00:00:00'', ''1944-06-06T00:00:00'',
        ''1969-07-20T00:00:00'', ''2019-08-15T00:00:00'', ''0987-09-01T00:00:00'',
        ''2021-10-03T00:00:00'', ''2022-11-30T00:00:00'', ''9999-12-31T00:00:00'']
   \<and> map parse_iso_date
       [''15 mar 2024'', ''MARCH 15, 2024'', (''15   Mar '' @ [CHR 0x09] @ '' 2024''),
        ''Dec  25,   2024'', ([CHR 0x0A] @ '' 3 nov 2032 '')]
     = [''2024-03-15T00:00:00'', ''2024-03-15T00:00:00'', ''2024-03-15T00:00:00'',
        ''2024-12-25T00:00:00'', ''2032-11-03T00:00:00'']
   \<and> map parse_iso_date
       [''not a date'', '''', ''   '', ''TBD'', ''2024-02-30'', ''2023-02-29'',
        ''1900-02-29'', ''31 Apr 2024'', ''31 April 2024'', ''Feb 30, 2024'',
        ''June 31, 2024'', ''2024-13-01'', ''2024-00-10'', ''0000-01-01'',
        ''2024-03-15T00:00:00'', ''15 Marc 2024'', ''Sept 1, 2024'', ''32 Jan 2024'',
        ''0 Jan 2024'', ''24-03-15'', ''Mar 15 2024'', ''15-Mar-2024'', '' Coming soon '',
        ''2100-02-29'', ''31 Jun 2024'', ''31 September 2024'', ''Nov 31, 2024'',
        ''987-01-02'', ''12024-01-01'', ''15 March, 2024'', ''March 15th, 2024'',
        ''2024/03/15'', ''15 3 2024'']
     = [''not a date'', '''', '''', ''TBD'', ''2024-02-30'', ''2023-02-29'', ''1900-02-29'',
        ''31 Apr 2024'', ''31 April 2024'', ''Feb 30, 2024'', ''June 31, 2024'',
        ''2024-13-01'', ''2024-00-10'', ''0000-01-01'', ''2024-03-15T00:00:00'',
        ''15 Marc 2024'', ''Sept 1, 2024'', ''32 Jan 2024'', ''0 Jan 2024'', ''24-03-15'',
        ''Mar 15 2024'', ''15-Mar-2024'', ''Coming soon'', ''2100-02-29'', ''31 Jun 2024'',
        ''31 September 2024'', ''Nov 31, 2024'', ''987-01-02'', ''12024-01-01'',
        ''15 March, 2024'', ''March 15th, 2024'', ''2024/03/15'', ''15 3 2024'']"
proof (intro conjI allI impI)
  fix i dt
  assume "i < length date_formats \<and> strptime (strip s) (date_formats ! i) = Inr dt
        \<and> (\<forall>j<i. isl (strptime (strip s) (date_formats ! j)))"
  then show "parse_iso_date s = isoformat dt"
    unfolding parse_iso_date_def using try_formats_first by blast
next
  assume "\<forall>fmt\<in>set date_formats. isl (strptime (strip s) fmt)"
  then show "parse_iso_date s = strip s"
    unfolding parse_iso_date_def by (rule try_formats_all_fail)
qed code_simp+

text \<open>The theorem at a text for each of the formats after the first, each read by its
  format only after the earlier ones raised, and at a text no format reads.\<close>

theorem parse_iso_date_first_success_witness:
  "parse_iso_date ''  15 Mar 2024 '' = ''2024-03-15T00:00:00''
   \<and> parse_iso_date ''29 February 2004'' = ''2004-02-29T00:00:00''
   \<and> parse_iso_date ''Jul 14, 1789'' = ''1789-07-14T00:00:00''
   \<and> parse_iso_date ''December 31, 9999'' = ''9999-12-31T00:00:00''
   \<and> parse_iso_date '' TBD'' = ''TBD''"
proof (intro conjI)
  have s: "strip ''  15 Mar 2024 '' = ''15 Mar 2024''"
    by (simp add: strip_def lstrip_def rstrip_def isspace_def)
  have e: "isl (strptime ''15 Mar 2024'' ''%Y-%m-%d'')"
    "strptime ''15 Mar 2024'' ''%d %b %Y'' = Inr (midnight 2024 3 15)"
    "isoformat (midnight 2024 3 15) = ''2024-03-15T00:00:00''"
    by code_simp+
  have "(1::nat) < length date_formats \<and>
        strptime (strip ''  15 Mar 2024 '') (date_formats ! 1) = Inr (midnight 2024 3 15) \<and>
        (\<forall>j<1. isl (strptime (strip ''  15 Mar 2024 '') (date_formats ! j)))"
    using e by (simp add: s date_formats_def)
  from parse_iso_date_first_success[of "''  15 Mar 2024 ''", THEN conjunct1, rule_format, OF this]
  show "parse_iso_date ''  15 Mar 2024 '' = ''2024-03-15T00:00:00''"
    by (simp add: e)
next
  have s: "strip ''29 February 2004'' = ''29 February 2004''"
    by (simp add: strip_def lstrip_def rstrip_def isspace_def)
  have e: "isl (strptime ''29 February 2004'' ''%Y-%m-%d'')"
    "isl (strptime ''29 February 2004'' ''%d %b %Y'')"
    "strptime ''29 February 2004'' ''%d %B %Y'' = Inr (midnight 2004 2 29)"
    "isoformat (midnight 2004 2 29) = ''2004-02-29T00:00:00''"
    by code_simp+
  have "(2::nat) < length date_formats \<and>
        strptime (strip ''29 February 2004'') (date_formats ! 2) = Inr (midnight 2004 2 29) \<and>
        (\<forall>j<2. isl (strptime (strip ''29 February 2004'') (date_formats ! j)))"
    using e by (simp add: s date_formats_def less_2_cases_iff)
  from parse_iso_date_first_success[of "''29 February 2004''", THEN conjunct1, rule_format, OF this]
  show "parse_iso_date ''29 February 2004'' = ''2004-02-29T00:00:00''"
    by (simp add: e)
next
  have s: "strip ''Jul 14, 1789'' = ''Jul 14, 1789''"
    by (simp add: strip_def lstrip_def rstrip_def isspace_def)
  have e: "isl (strptime ''Jul 14, 1789'' ''%Y-%m-%d'')"
    "isl (strptime ''Jul 14, 1789'' ''%d %b %Y'')"
    "isl (strptime ''Jul 14, 1789'' ''%d %B %Y'')"
    "strptime ''Jul 14, 1789'' ''%b %d, %Y'' = Inr (midnight 1789 7 14)"
    "isoformat (midnight 1789 7 14) = ''1789-07-14T00:00:00''"
    by code_simp+
  have "\<forall>j<3. isl (strptime ''Jul 14, 1789'' (date_formats ! j))"
  proof (intro allI impI)
    fix j :: nat
    assume "j < 3"
    then have "j = 0 \<or> j = 1 \<or> j = 2" by arith
    then show "isl (strptime ''Jul 14, 1789'' (date_formats ! j))"
      using e by (auto simp: date_formats_def)
  qed
  then have "(3::nat) < length date_formats \<and>
        strptime (strip ''Jul 14, 1789'') (date_formats ! 3) = Inr (midnight 1789 7 14) \<and>
        (\<forall>j<3. isl (strptime (strip ''Jul 14, 1789'') (date_formats ! j)))"
    using e(4) by (simp add: s date_formats_def)
  from parse_iso_date_first_success[of "''Jul 14, 1789''", THEN conjunct1, rule_format, OF this]
  show "parse_iso_date ''Jul 14, 1789'' = ''1789-07-14T00:00:00''"
    by (simp add: e)
next
  have s: "strip ''December 31, 9999'' = ''December 31, 9999''"
    by (simp add: strip_def lstrip_def rstrip_def isspace_def)
  have e: "isl (strptime ''December 31, 9999'' ''%Y-%m-%d'')"
    "isl (strptime ''December 31, 9999'' ''%d %b %Y'')"
    "isl (strptime ''December 31, 9999'' ''%d %B %Y'')"
    "isl (strptime ''December 31, 9999'' ''%b %d, %Y'')"
    "strptime ''December 31, 9999'' ''%B %d, %Y'' = Inr (midnight 9999 12 31)"
    "isoformat (midnight 9999 12 31) = ''9999-12-31T00:00:00''"
    by code_simp+
  have "\<forall>j<4. isl (strptime ''December 31, 9999'' (date_formats ! j))"
  proof (intro allI impI)
    fix j :: nat
    assume "j < 4"
    then have "j = 0 \<or> j = 1 \<or> j = 2 \<or> j = 3" by arith
    then show "isl (strptime ''December 31, 9999'' (date_formats ! j))"
      using e by (auto simp: date_formats_def)
  qed
  then have "(4::nat) < length date_formats \<and>
        strptime (strip ''December 31, 9999'') (date_formats ! 4) = Inr (midnight 9999 12 31) \<and>
        (\<forall>j<4. isl (strptime (strip ''December 31, 9999'') (date_formats ! j)))"
    using e(5) by (simp add: s date_formats_def)
  from parse_iso_date_first_success[of "''December 31, 9999''", THEN conjunct1, rule_format, OF this]
  show "parse_iso_date ''December 31, 9999'' = ''9999-12-31T00:00:00''"
    by (simp add: e)
next
  have s: "strip '' TBD'' = ''TBD''"
    by (simp add: strip_def lstrip_def rstrip_def isspace_def)
  have "list_all (\<lambda>f. isl (strptime ''TBD'' f)) date_formats" by code_simp
  then have "\<forall>fmt\<in>set date_formats. isl (strptime (strip '' TBD'') fmt)"
    by (simp add: s list_all_iff)
  from parse_iso_date_first_success[of "'' TBD''", THEN conjunct2, THEN conjunct1, THEN mp, OF this]
  show "parse_iso_date '' TBD'' = ''TBD''"
    by (simp add: s)
qed

text \<open>Each of the five formats on a text of its kind, for the same day.\<close>

lemma strptime_five_formats:
  "strptime ''2024-03-15'' ''%Y-%m-%d'' = Inr (midnight 2024 3 15)"
  "strptime ''15 Mar 2024'' ''%d %b %Y'' = Inr (midnight 2024 3 15)"
  "strptime ''15 March 2024'' ''%d %B %Y'' = Inr (midnight 2024 3 15)"
  "strptime ''Mar 15, 2024'' ''%b %d, %Y'' = Inr (midnight 2024 3 15)"
  "strptime ''March 15, 2024'' ''%B %d, %Y'' = Inr (midnight 2024 3 15)"
  by code_simp+

section \<open>Verification: the status deriver\<close>

text \<open>\<open>read_digits\<close> by a test of the count, for evaluation.\<close>

lemma read_digits_code [code]:
  "read_digits n s =
     (if n = 0 then Some (0, s)
      else (case s of
              [] \<Rightarrow> None
            | c # r \<Rightarrow>
                if isdigit c
                then map_option (\<lambda>(v, r'). ((of_char c - 48) * 10 ^ (n - 1) + v, r'))
                       (read_digits (n - 1) r)
                else None))"
  by (cases n; cases s) simp_all

lemma bind_simps [simp]: "bind (Inl e) f = Inl e" "bind (Inr v) f = f v"
  by (simp_all add: bind_def)

lemma catch_simps [simp]: "catch (Inl e) h = h e" "catch (Inr v) h = Inr v"
  by (simp_all add: catch_def)

lemma parse_opt_absent [simp]:
  "parse_opt f None = Inr None" "parse_opt f (Some []) = Inr None"
  by (simp_all add: parse_opt_def)

lemma dt_naive [simp]:
  "tzinfo a = None \<Longrightarrow> tzinfo b = None \<Longrightarrow> dt_lt a b = Inr (naive_lt a b)"
  "tzinfo a = None \<Longrightarrow> tzinfo b = None \<Longrightarrow> dt_le a b = Inr (naive_le a b)"
  by (simp_all add: dt_lt_def dt_le_def)

lemma determine_status_total: "\<exists>r. determine_status_from_iso f now s e = Inr r"
  by (cases "status_try f now s e")
     (auto simp: determine_status_from_iso_def split: option.splits)

lemma determine_status_raise:
  "status_try f now s e = Inl err \<Longrightarrow> determine_status_from_iso f now s e = Inr ''upcoming''"
  by (simp add: determine_status_from_iso_def)

lemma malformed_start:
  "parse_opt f s = Inl err \<Longrightarrow> determine_status_from_iso f now s e = Inr ''upcoming''"
  by (simp add: determine_status_from_iso_def status_try_def)

lemma malformed_end:
  "parse_opt f e = Inl err \<Longrightarrow> determine_status_from_iso f now s e = Inr ''upcoming''"
  by (cases "parse_opt f s") (simp_all add: determine_status_from_iso_def status_try_def)

lemma parse_opt_malformed:
  "t \<noteq> [] \<Longrightarrow> f (replace_Z t) = Inl err \<Longrightarrow> parse_opt f (Some t) = Inl err"
  by (simp add: parse_opt_def)

lemma lex_less_asym: "lex_less xs ys \<Longrightarrow> \<not> lex_less ys xs"
  by (induction xs ys rule: lex_less.induct) auto

lemma lex_less_irrefl: "\<not> lex_less xs xs"
  by (induction xs) auto

lemma naive_le_not_lt: "naive_le a b \<Longrightarrow> \<not> naive_lt b a"
  using lex_less_asym lex_less_irrefl by (auto simp: naive_le_def naive_lt_def)

lemma naive_lt_not_le: "naive_lt a b \<Longrightarrow> \<not> naive_le b a"
  using naive_le_not_lt by blast

text \<open>
  Claim C1, amended. With the clock's value and every parsed timestamp free of a UTC
  offset, \<open>determine_status_from_iso\<close> follows this table, for every parser: both
  timestamps absent give \<open>upcoming\<close>; a start that parses and lies after now gives
  \<open>upcoming\<close> whatever the end is; start and end that parse with start \<open>\<le>\<close> now \<open>\<le>\<close> end
  give \<open>running\<close>; an end that parses and lies before now gives \<open>ended\<close> when the start
  is absent and also when the start parses and is not after now; every remaining case
  gives \<open>upcoming\<close>.
\<close>

theorem determine_status_decision_table:
  assumes now: "tzinfo now = None"
  shows
   "((start_iso = None \<or> start_iso = Some []) \<and> (end_iso = None \<or> end_iso = Some [])
       \<longrightarrow> determine_status_from_iso f now start_iso end_iso = Inr ''upcoming'')
    \<and> (\<forall>sd. parse_opt f start_iso = Inr (Some sd) \<and> tzinfo sd = None \<and> naive_lt now sd
       \<longrightarrow> determine_status_from_iso f now start_iso end_iso = Inr ''upcoming'')
    \<and> (\<forall>sd ed. parse_opt f start_iso = Inr (Some sd) \<and> tzinfo sd = None
          \<and> parse_opt f end_iso = Inr (Some ed) \<and> tzinfo ed = None
          \<and> naive_le sd now \<and> naive_le now ed
       \<longrightarrow> determine_status_from_iso f now start_iso end_iso = Inr ''running'')
    \<and> (\<forall>s ed. parse_opt f start_iso = Inr s
          \<and> (s = None \<or> (\<exists>sd. s = Some sd \<and> tzinfo sd = None \<and> naive_le sd now))
          \<and> parse_opt f end_iso = Inr (Some ed) \<and> tzinfo ed = None \<and> naive_lt ed now
       \<longrightarrow> determine_status_from_iso f now start_iso end_iso = Inr ''ended'')
    \<and> (\<forall>s e. parse_opt f start_iso = Inr s \<and> (\<forall>sd. s = Some sd \<longrightarrow> tzinfo sd = None)
          \<and> parse_opt f end_iso = Inr e \<and> (\<forall>ed. e = Some ed \<longrightarrow> tzinfo ed = None)
          \<and> \<not> (\<exists>sd. s = Some sd \<and> naive_lt now sd)
          \<and> \<not> (\<exists>sd ed. s = Some sd \<and> e = Some ed \<and> naive_le sd now \<and> naive_le now ed)
          \<and> \<not> (\<exists>ed. e = Some ed \<and> naive_lt ed now)
       \<longrightarrow> determine_status_from_iso f now start_iso end_iso = Inr ''upcoming'')"
proof (intro conjI allI impI)
  assume "(start_iso = None \<or> start_iso = Some []) \<and> (end_iso = None \<or> end_iso = Some [])"
  then show "determine_status_from_iso f now start_iso end_iso = Inr ''upcoming''"
    by (auto simp: determine_status_from_iso_def status_try_def)
next
  fix sd
  assume a: "parse_opt f start_iso = Inr (Some sd) \<and> tzinfo sd = None \<and> naive_lt now sd"
  show "determine_status_from_iso f now start_iso end_iso = Inr ''upcoming''"
  proof (cases "parse_opt f end_iso")
    case (Inl err)
    then show ?thesis by (rule malformed_end)
  next
    case (Inr e)
    with a now show ?thesis by (simp add: determine_status_from_iso_def status_try_def)
  qed
next
  fix sd ed
  assume a: "parse_opt f start_iso = Inr (Some sd) \<and> tzinfo sd = None
          \<and> parse_opt f end_iso = Inr (Some ed) \<and> tzinfo ed = None
          \<and> naive_le sd now \<and> naive_le now ed"
  then have "\<not> naive_lt now sd" by (simp add: naive_le_not_lt)
  with a now show "determine_status_from_iso f now start_iso end_iso = Inr ''running''"
    by (simp add: determine_status_from_iso_def status_try_def)
next
  fix s ed
  assume a: "parse_opt f start_iso = Inr s
          \<and> (s = None \<or> (\<exists>sd. s = Some sd \<and> tzinfo sd = None \<and> naive_le sd now))
          \<and> parse_opt f end_iso = Inr (Some ed) \<and> tzinfo ed = None \<and> naive_lt ed now"
  then have ne: "\<not> naive_le now ed" by (simp add: naive_lt_not_le)
  show "determine_status_from_iso f now start_iso end_iso = Inr ''ended''"
  proof (cases s)
    case None
    with a now show ?thesis by (simp add: determine_status_from_iso_def status_try_def)
  next
    case (Some sd)
    with a have sd: "tzinfo sd = None" "naive_le sd now" by auto
    then have "\<not> naive_lt now sd" by (simp add: naive_le_not_lt)
    with a now ne sd Some show ?thesis
      by (simp add: determine_status_from_iso_def status_try_def)
  qed
next
  fix s e
  assume a: "parse_opt f start_iso = Inr s \<and> (\<forall>sd. s = Some sd \<longrightarrow> tzinfo sd = None)
          \<and> parse_opt f end_iso = Inr e \<and> (\<forall>ed. e = Some ed \<longrightarrow> tzinfo ed = None)
          \<and> \<not> (\<exists>sd. s = Some sd \<and> naive_lt now sd)
          \<and> \<not> (\<exists>sd ed. s = Some sd \<and> e = Some ed \<and> naive_le sd now \<and> naive_le now ed)
          \<and> \<not> (\<exists>ed. e = Some ed \<and> naive_lt ed now)"
  show "determine_status_from_iso f now start_iso end_iso = Inr ''upcoming''"
  proof (cases s)
    case None
    with a now show ?thesis
      by (cases e) (simp_all add: determine_status_from_iso_def status_try_def)
  next
    case (Some sd)
    with a now show ?thesis
      by (cases e) (simp_all add: determine_status_from_iso_def status_try_def)
  qed
qed

lemma parse_examples:
  "parse_opt fromisoformat_model (Some ''2020-01-01T00:00:00'') = Inr (Some (midnight 2020 1 1))"
  "parse_opt fromisoformat_model (Some ''2021-01-01T00:00:00'') = Inr (Some (midnight 2021 1 1))"
  "parse_opt fromisoformat_model (Some ''2030-01-01T00:00:00'') = Inr (Some (midnight 2030 1 1))"
  "parse_opt fromisoformat_model (Some ''2030-01-01T00:00:00Z'')
     = Inr (Some ((midnight 2030 1 1)\<lparr>tzinfo := Some 0\<rparr>))"
  "parse_opt fromisoformat_model (Some ''soon'') = Inl ValueError"
  by code_simp+

lemma now_example_facts:
  "tzinfo now_example = None"
  "naive_lt now_example (midnight 2030 1 1)"
  "naive_le (midnight 2020 1 1) now_example"
  "naive_le now_example (midnight 2030 1 1)"
  "naive_lt (midnight 2021 1 1) now_example"
  "\<not> naive_lt now_example (midnight 2020 1 1)"
  "\<not> naive_le now_example (midnight 2021 1 1)"
  "\<not> naive_lt (midnight 2030 1 1) now_example"
  by (simp_all add: now_example_def midnight_def naive_lt_def naive_le_def dt_fields_def)

lemma midnight_naive [simp]: "tzinfo (midnight y m d) = None"
  by (simp add: midnight_def)

text \<open>The table at the clock value 2026-11-03 12:00: no timestamps; a start in 2030 with
  an unparsable end; a start in 2020 with an end in 2030; an end in 2021 alone; a start
  in 2020 alone.\<close>

theorem determine_status_decision_table_witness:
  "determine_status_from_iso fromisoformat_model now_example None None = Inr ''upcoming''
   \<and> determine_status_from_iso fromisoformat_model now_example
         (Some ''2030-01-01T00:00:00'') (Some ''soon'') = Inr ''upcoming''
   \<and> determine_status_from_iso fromisoformat_model now_example
         (Some ''2020-01-01T00:00:00'') (Some ''2030-01-01T00:00:00'') = Inr ''running''
   \<and> determine_status_from_iso fromisoformat_model now_example
         None (Some ''2021-01-01T00:00:00'') = Inr ''ended''
   \<and> determine_status_from_iso fromisoformat_model now_example
         (Some ''2020-01-01T00:00:00'') None = Inr ''upcoming''"
proof (intro conjI)
  note T = determine_status_decision_table[OF now_example_facts(1), of _ _ fromisoformat_model]
  show "determine_status_from_iso fromisoformat_model now_example None None = Inr ''upcoming''"
    using T[of None None] by simp
  show "determine_status_from_iso fromisoformat_model now_example
         (Some ''2030-01-01T00:00:00'') (Some ''soon'') = Inr ''upcoming''"
    using T[of "Some ''2030-01-01T00:00:00''" "Some ''soon''"] parse_examples now_example_facts
    by simp
  show "determine_status_from_iso fromisoformat_model now_example
         (Some ''2020-01-01T00:00:00'') (Some ''2030-01-01T00:00:00'') = Inr ''running''"
    using T[of "Some ''2020-01-01T00:00:00''" "Some ''2030-01-01T00:00:00''"]
      parse_examples now_example_facts
    by simp
  show "determine_status_from_iso fromisoformat_model now_example
         None (Some ''2021-01-01T00:00:00'') = Inr ''ended''"
    using T[of None "Some ''2021-01-01T00:00:00''"] parse_examples now_example_facts
    by simp
  show "determine_status_from_iso fromisoformat_model now_example
         (Some ''2020-01-01T00:00:00'') None = Inr ''upcoming''"
    using T[of "Some ''2020-01-01T00:00:00''" None] parse_examples now_example_facts
    by simp
qed

text \<open>
  Claim C1 as stated fails: with a start in 2020 and an end in 2021, both parsed, and the
  clock at 2026-11-03 12:00, the start is not after now, now is not between start and
  end, and the end is not the only timestamp present, so the claim's last clause
  promises \<open>upcoming\<close>; the function returns \<open>ended\<close>.
\<close>

theorem determine_status_remaining_counterexample:
  "parse_opt fromisoformat_model (Some ''2020-01-01T00:00:00'') = Inr (Some (midnight 2020 1 1))
   \<and> parse_opt fromisoformat_model (Some ''2021-01-01T00:00:00'') = Inr (Some (midnight 2021 1 1))
   \<and> \<not> naive_lt now_example (midnight 2020 1 1)
   \<and> \<not> (naive_le (midnight 2020 1 1) now_example \<and> naive_le now_example (midnight 2021 1 1))
   \<and> determine_status_from_iso fromisoformat_model now_example
         (Some ''2020-01-01T00:00:00'') (Some ''2021-01-01T00:00:00'') = Inr ''ended''
   \<and> determine_status_from_iso fromisoformat_model now_example
         (Some ''2020-01-01T00:00:00'') (Some ''2021-01-01T00:00:00'') \<noteq> Inr ''upcoming''"
proof -
  have "determine_status_from_iso fromisoformat_model now_example
         (Some ''2020-01-01T00:00:00'') (Some ''2021-01-01T00:00:00'') = Inr ''ended''"
    using parse_examples now_example_facts
    by (simp add: determine_status_from_iso_def status_try_def)
  then show ?thesis using parse_examples now_example_facts by simp
qed

text \<open>An aware timestamp, as the \<open>Z\<close> suffix produces, cannot be compared with the naive
  clock value: the comparison raises and the result is \<open>upcoming\<close>, whatever the dates.\<close>

lemma aware_start_upcoming:
  "tzinfo now = None \<Longrightarrow> parse_opt f start_iso = Inr (Some sd) \<Longrightarrow> tzinfo sd = Some off \<Longrightarrow>
   determine_status_from_iso f now start_iso end_iso = Inr ''upcoming''"
  by (cases "parse_opt f end_iso")
     (simp_all add: determine_status_from_iso_def status_try_def dt_lt_def)

lemma aware_end_upcoming:
  "tzinfo now = None \<Longrightarrow> parse_opt f end_iso = Inr (Some ed) \<Longrightarrow> tzinfo ed = Some off \<Longrightarrow>
   determine_status_from_iso f now start_iso end_iso = Inr ''upcoming''"
proof -
  assume now: "tzinfo now = None" and e: "parse_opt f end_iso = Inr (Some ed)"
    and off: "tzinfo ed = Some off"
  show ?thesis
  proof (cases "parse_opt f start_iso")
    case (Inl err)
    then show ?thesis by (rule malformed_start)
  next
    case (Inr s)
    show ?thesis
    proof (cases s)
      case None
      with Inr now e off show ?thesis
        by (simp add: determine_status_from_iso_def status_try_def dt_lt_def)
    next
      case (Some sd)
      show ?thesis
      proof (cases "tzinfo sd")
        case None
        with Some Inr now e off show ?thesis
          by (simp add: determine_status_from_iso_def status_try_def dt_lt_def dt_le_def)
      next
        case (Some x)
        with \<open>s = Some sd\<close> Inr now show ?thesis using aware_start_upcoming by blast
      qed
    qed
  qed
qed

text \<open>
  Claim C2, amended. \<open>determine_status_from_iso\<close> never raises: it returns a status for
  every pair of inputs, every parser and every clock value. A timestamp text that the
  parser rejects, in either position, makes the result \<open>upcoming\<close>, which is the result of
  passing no timestamp in both positions.
\<close>

theorem determine_status_never_raises:
  "(\<exists>r. determine_status_from_iso f now start_iso end_iso = Inr r)
   \<and> (\<forall>t err. start_iso = Some t \<and> t \<noteq> [] \<and> f (replace_Z t) = Inl err
        \<longrightarrow> determine_status_from_iso f now start_iso end_iso = Inr ''upcoming'')
   \<and> (\<forall>t err. end_iso = Some t \<and> t \<noteq> [] \<and> f (replace_Z t) = Inl err
        \<longrightarrow> determine_status_from_iso f now start_iso end_iso = Inr ''upcoming'')
   \<and> determine_status_from_iso f now None None = Inr ''upcoming''"
proof (intro conjI allI impI)
  show "\<exists>r. determine_status_from_iso f now start_iso end_iso = Inr r"
    by (rule determine_status_total)
next
  fix t err
  assume "start_iso = Some t \<and> t \<noteq> [] \<and> f (replace_Z t) = Inl err"
  then have "parse_opt f start_iso = Inl err" by (simp add: parse_opt_malformed)
  then show "determine_status_from_iso f now start_iso end_iso = Inr ''upcoming''"
    by (rule malformed_start)
next
  fix t err
  assume "end_iso = Some t \<and> t \<noteq> [] \<and> f (replace_Z t) = Inl err"
  then have "parse_opt f end_iso = Inl err" by (simp add: parse_opt_malformed)
  then show "determine_status_from_iso f now start_iso end_iso = Inr ''upcoming''"
    by (rule malformed_end)
next
  show "determine_status_from_iso f now None None = Inr ''upcoming''"
    by (simp add: determine_status_from_iso_def status_try_def)
qed

lemma soon_malformed: "fromisoformat_model (replace_Z ''soon'') = Inl ValueError"
  by code_simp

text \<open>The theorem with the text \<open>soon\<close> as start and as end, beside a parsable timestamp.\<close>

theorem determine_status_never_raises_witness:
  "determine_status_from_iso fromisoformat_model now_example
      (Some ''soon'') (Some ''2021-01-01T00:00:00'') = Inr ''upcoming''
   \<and> determine_status_from_iso fromisoformat_model now_example
      (Some ''2020-01-01T00:00:00'') (Some ''soon'') = Inr ''upcoming''"
proof
  show "determine_status_from_iso fromisoformat_model now_example
      (Some ''soon'') (Some ''2021-01-01T00:00:00'') = Inr ''upcoming''"
    using determine_status_never_raises
      [of fromisoformat_model now_example "Some ''soon''" "Some ''2021-01-01T00:00:00''"]
      soon_malformed
    by simp
  show "determine_status_from_iso fromisoformat_model now_example
      (Some ''2020-01-01T00:00:00'') (Some ''soon'') = Inr ''upcoming''"
    using determine_status_never_raises
      [of fromisoformat_model now_example "Some ''2020-01-01T00:00:00''" "Some ''soon''"]
      soon_malformed
    by simp
qed

text \<open>
  Claim C2 as stated fails: the unparsable start \<open>soon\<close> beside an end in 2021 gives
  \<open>upcoming\<close>, while no start beside the same end gives \<open>ended\<close>.
\<close>

theorem malformed_is_not_absent_counterexample:
  "fromisoformat_model (replace_Z ''soon'') = Inl ValueError
   \<and> determine_status_from_iso fromisoformat_model now_example
        (Some ''soon'') (Some ''2021-01-01T00:00:00'') = Inr ''upcoming''
   \<and> determine_status_from_iso fromisoformat_model now_example
        None (Some ''2021-01-01T00:00:00'') = Inr ''ended''
   \<and> determine_status_from_iso fromisoformat_model now_example
        (Some ''soon'') (Some ''2021-01-01T00:00:00'')
      \<noteq> determine_status_from_iso fromisoformat_model now_example
        None (Some ''2021-01-01T00:00:00'')"
proof -
  have a: "determine_status_from_iso fromisoformat_model now_example
        (Some ''soon'') (Some ''2021-01-01T00:00:00'') = Inr ''upcoming''"
    using parse_examples by (simp add: determine_status_from_iso_def status_try_def)
  have b: "determine_status_from_iso fromisoformat_model now_example
        None (Some ''2021-01-01T00:00:00'') = Inr ''ended''"
    using parse_examples now_example_facts
    by (simp add: determine_status_from_iso_def status_try_def)
  show ?thesis using a b soon_malformed by simp
qed

section \<open>Verification: the persistence gateway\<close>

lemma ensure_client_no_ValueError: "fst (ensure_client srv w) \<noteq> Inl ValueError"
  by (auto simp: ensure_client_def Let_def split: option.splits)

lemma get_collection_no_ValueError: "fst (get_collection srv n w) \<noteq> Inl ValueError"
proof (cases "ensure_client srv w")
  case (Pair r w1)
  with ensure_client_no_ValueError[of srv w] show ?thesis
    by (cases r) (auto simp: get_collection_def Let_def split: option.splits)
qed

lemma ensure_client_calls:
  "\<exists>cs. calls (snd (ensure_client srv w)) = calls w @ cs
        \<and> (isl (fst (ensure_client srv w)) \<longrightarrow> cs \<noteq> [])"
  by (auto simp: ensure_client_def Let_def split: option.splits)

lemma get_collection_extends_calls:
  "get_collection srv n w = (r, w1) \<Longrightarrow> \<exists>cs. calls w1 = calls w @ cs"
  using ensure_client_calls[of srv w]
  by (cases "ensure_client srv w")
     (auto simp: get_collection_def Let_def split: sum.splits option.splits)

lemma get_collection_fails_after_call:
  "get_collection srv n w = (Inl e, w1) \<Longrightarrow> calls w1 \<noteq> calls w"
proof -
  assume g: "get_collection srv n w = (Inl e, w1)"
  obtain r0 w0 where e0: "ensure_client srv w = (r0, w0)" by (cases "ensure_client srv w")
  show ?thesis
  proof (cases r0)
    case (Inl e')
    with e0 g have "w1 = w0" by (simp add: get_collection_def)
    moreover from ensure_client_calls[of srv w] e0 Inl
    obtain cs where "calls w0 = calls w @ cs" "cs \<noteq> []" by auto
    ultimately show ?thesis by simp
  next
    case (Inr u)
    have "client w0 \<noteq> None"
      using e0 Inr by (auto simp: ensure_client_def Let_def split: option.splits if_splits)
    with e0 Inr g show ?thesis
      by (auto simp: get_collection_def Let_def split: option.splits)
  qed
qed

text \<open>
  Claim C3. \<open>upsert_hackathon\<close> on a record whose \<open>id\<close> is missing or falsy (the empty
  dict among them) raises the validation error \<open>ValueError\<close> and returns the state as it
  was: no driver call is added to the trace, and the client and the store are unchanged.
  With an \<open>id\<close> that is present and truthy the result is never that validation error,
  and the driver is called.
\<close>

theorem upsert_hackathon_requires_id:
  "((map_of kvs ''id'' = None \<or> (\<exists>v. map_of kvs ''id'' = Some v \<and> \<not> truthy v))
      \<longrightarrow> upsert_hackathon srv (PDict kvs) w = (Inl ValueError, w))
   \<and> upsert_hackathon srv (PDict []) w = (Inl ValueError, w)
   \<and> (\<forall>v. map_of kvs ''id'' = Some v \<and> truthy v
      \<longrightarrow> fst (upsert_hackathon srv (PDict kvs) w) \<noteq> Inl ValueError
          \<and> calls (snd (upsert_hackathon srv (PDict kvs) w)) \<noteq> calls w)"
proof (intro conjI allI impI)
  assume "map_of kvs ''id'' = None \<or> (\<exists>v. map_of kvs ''id'' = Some v \<and> \<not> truthy v)"
  then show "upsert_hackathon srv (PDict kvs) w = (Inl ValueError, w)"
    by (auto simp: upsert_hackathon_def)
next
  show "upsert_hackathon srv (PDict []) w = (Inl ValueError, w)"
    by (simp add: upsert_hackathon_def)
next
  fix v
  assume a: "map_of kvs ''id'' = Some v \<and> truthy v"
  obtain r w1 where g: "get_collection srv None w = (r, w1)" by (cases "get_collection srv None w")
  have nv: "r \<noteq> Inl ValueError" using get_collection_no_ValueError[of srv None w] g by simp
  show "fst (upsert_hackathon srv (PDict kvs) w) \<noteq> Inl ValueError"
  proof (cases r)
    case (Inl e)
    with a g nv show ?thesis by (simp add: upsert_hackathon_def)
  next
    case (Inr col)
    with a g show ?thesis
      by (simp add: upsert_hackathon_def Let_def split: prod.splits)
  qed
  show "calls (snd (upsert_hackathon srv (PDict kvs) w)) \<noteq> calls w"
  proof (cases r)
    case (Inl e)
    with g have "get_collection srv None w = (Inl e, w1)" by simp
    then have "calls w1 \<noteq> calls w" by (rule get_collection_fails_after_call)
    with a g Inl show ?thesis by (simp add: upsert_hackathon_def)
  next
    case (Inr col)
    from g have "\<exists>cs. calls w1 = calls w @ cs" by (rule get_collection_extends_calls)
    with a g Inr show ?thesis
      by (auto simp: upsert_hackathon_def Let_def split: prod.splits)
  qed
qed

text \<open>The theorem at a record without \<open>id\<close>, a record with an empty \<open>id\<close>, and a record
  with the \<open>id\<close> \<open>abc\<close>, which the running server stores.\<close>

theorem upsert_hackathon_requires_id_witness:
  "upsert_hackathon server_up (PDict [(''name'', PStr ''X'')]) world0 = (Inl ValueError, world0)
   \<and> upsert_hackathon server_up (PDict [(''id'', PStr []), (''name'', PStr ''X'')]) world0
       = (Inl ValueError, world0)
   \<and> fst (upsert_hackathon server_up (PDict [(''id'', PStr ''abc''), (''name'', PStr ''X'')]) world0)
       \<noteq> Inl ValueError"
proof (intro conjI)
  show "upsert_hackathon server_up (PDict [(''name'', PStr ''X'')]) world0 = (Inl ValueError, world0)"
    using upsert_hackathon_requires_id[of "[(''name'', PStr ''X'')]" server_up world0]
    by simp
  show "upsert_hackathon server_up (PDict [(''id'', PStr []), (''name'', PStr ''X'')]) world0
       = (Inl ValueError, world0)"
    using upsert_hackathon_requires_id
      [of "[(''id'', PStr []), (''name'', PStr ''X'')]" server_up world0]
    by simp
  have "map_of [(''id'', PStr ''abc''), (''name'', PStr ''X'')] ''id'' = Some (PStr ''abc'')
          \<and> truthy (PStr ''abc'')"
    by simp
  then show "fst (upsert_hackathon server_up (PDict [(''id'', PStr ''abc''), (''name'', PStr ''X'')]) world0)
       \<noteq> Inl ValueError"
    using upsert_hackathon_requires_id
      [of "[(''id'', PStr ''abc''), (''name'', PStr ''X'')]" server_up world0,
       THEN conjunct2, THEN conjunct2, THEN spec, THEN mp, THEN conjunct1]
    by blast
qed

lemma ensure_client_reconnects:
  assumes "client w = None"
  shows "calls (snd (ensure_client srv w))
         = calls w @ Connect (MONGO_URI w)
             # (if constructs srv (MONGO_URI w)
                then Ping (MONGO_URI w) # (if answers srv (MONGO_URI w) then [] else [Close (MONGO_URI w)])
                else [])"
    and "constructs srv (MONGO_URI w) \<and> answers srv (MONGO_URI w)
         \<Longrightarrow> client (snd (ensure_client srv w)) = Some (MONGO_URI w)"
  using assms by (auto simp: ensure_client_def Let_def)

text \<open>
  Claim C8. \<open>set_mongo_uri\<close> with a falsy uri (\<open>None\<close> or the empty text) returns the state
  as it was. With a non-empty uri it sets \<open>MONGO_URI\<close> to that uri and \<open>_client\<close> to
  \<open>None\<close>, closing the client there was, and changes no other global, nor the environment
  nor the store; the next \<open>_ensure_client\<close> then constructs a client for the new uri, and
  holds it when the server there answers.
\<close>

theorem set_mongo_uri_frame:
  "((uri = None \<or> uri = Some []) \<longrightarrow> set_mongo_uri uri w = w)
   \<and> (\<forall>u. uri = Some u \<and> u \<noteq> [] \<longrightarrow>
        set_mongo_uri uri w
          = w\<lparr>MONGO_URI := u, client := None,
              calls := calls w @ (case client w of None \<Rightarrow> [] | Some c \<Rightarrow> [Close c])\<rparr>
        \<and> calls (snd (ensure_client srv (set_mongo_uri uri w)))
          = calls (set_mongo_uri uri w) @ Connect u
              # (if constructs srv u
                 then Ping u # (if answers srv u then [] else [Close u]) else [])
        \<and> (constructs srv u \<and> answers srv u
             \<longrightarrow> client (snd (ensure_client srv (set_mongo_uri uri w))) = Some u))"
proof (intro conjI allI impI)
  assume "uri = None \<or> uri = Some []"
  then show "set_mongo_uri uri w = w" by (auto simp: set_mongo_uri_def)
next
  fix u
  assume a: "uri = Some u \<and> u \<noteq> []"
  then show eq: "set_mongo_uri uri w
          = w\<lparr>MONGO_URI := u, client := None,
              calls := calls w @ (case client w of None \<Rightarrow> [] | Some c \<Rightarrow> [Close c])\<rparr>"
    by (cases "client w") (simp_all add: set_mongo_uri_def Let_def)
  have c: "client (set_mongo_uri uri w) = None" and m: "MONGO_URI (set_mongo_uri uri w) = u"
    by (simp_all add: eq)
  from ensure_client_reconnects(1)[OF c, of srv]
  show "calls (snd (ensure_client srv (set_mongo_uri uri w)))
          = calls (set_mongo_uri uri w) @ Connect u
              # (if constructs srv u
                 then Ping u # (if answers srv u then [] else [Close u]) else [])"
    by (simp only: m)
  assume "constructs srv u \<and> answers srv u"
  with ensure_client_reconnects(2)[OF c, of srv]
  show "client (snd (ensure_client srv (set_mongo_uri uri w))) = Some u"
    by (simp only: m)
qed

text \<open>The theorem at a state that holds a client of the default address.\<close>

theorem set_mongo_uri_frame_witness:
  "set_mongo_uri (Some []) world1 = world1
   \<and> set_mongo_uri (Some ''mongodb://db:27017'') world1
       = world1\<lparr>MONGO_URI := ''mongodb://db:27017'', client := None,
                calls := [Close ''mongodb://localhost:27017'']\<rparr>
   \<and> client (snd (ensure_client server_up (set_mongo_uri (Some ''mongodb://db:27017'') world1)))
       = Some ''mongodb://db:27017''"
proof (intro conjI)
  show "set_mongo_uri (Some []) world1 = world1"
    using set_mongo_uri_frame[of "Some []" world1] by simp
  show "set_mongo_uri (Some ''mongodb://db:27017'') world1
       = world1\<lparr>MONGO_URI := ''mongodb://db:27017'', client := None,
                calls := [Close ''mongodb://localhost:27017'']\<rparr>"
    using set_mongo_uri_frame[of "Some ''mongodb://db:27017''" world1]
    by (simp add: world1_def world0_def)
  show "client (snd (ensure_client server_up (set_mongo_uri (Some ''mongodb://db:27017'') world1)))
       = Some ''mongodb://db:27017''"
  proof -
    have up: "constructs server_up ''mongodb://db:27017'' \<and> answers server_up ''mongodb://db:27017''"
      by (simp add: server_up_def)
    have "Some ''mongodb://db:27017'' = Some ''mongodb://db:27017'' \<and> ''mongodb://db:27017'' \<noteq> []"
      by simp
    with set_mongo_uri_frame[of "Some ''mongodb://db:27017''" world1 server_up] up
    show ?thesis by blast
  qed
qed

section \<open>Verification: slugs\<close>

lemma split_char_nonempty: "split_char c s \<noteq> []"
  by (induction s) (auto split: list.splits)

lemma split_char_last_nonempty:
  "s \<noteq> [] \<Longrightarrow> last s \<noteq> c \<Longrightarrow> last (split_char c s) \<noteq> []"
proof (induction s)
  case Nil
  then show ?case by simp
next
  case (Cons x xs)
  show ?case
  proof (cases "xs = []")
    case True
    with Cons.prems show ?thesis by simp
  next
    case False
    with Cons have ih: "last (split_char c xs) \<noteq> []" by simp
    obtain w ws where w: "split_char c xs = w # ws"
      using split_char_nonempty[of c xs] by (cases "split_char c xs") auto
    show ?thesis
    proof (cases "x = c")
      case True
      then show ?thesis using ih w by simp
    next
      case False
      then show ?thesis using ih w by (cases ws) auto
    qed
  qed
qed

lemma rstrip_char_last:
  "rstrip_char c s \<noteq> [] \<Longrightarrow> last (rstrip_char c s) \<noteq> c"
proof -
  assume a: "rstrip_char c s \<noteq> []"
  then have "dropWhile (\<lambda>x. x = c) (rev s) \<noteq> []" by (simp add: rstrip_char_def)
  then have "\<not> (hd (dropWhile (\<lambda>x. x = c) (rev s)) = c)" by (rule hd_dropWhile)
  then show ?thesis using a by (simp add: rstrip_char_def last_rev)
qed

lemma replace_char_empty: "replace_char a b s = [] \<longleftrightarrow> s = []"
  by (simp add: replace_char_def)

lemma slug_from_url_propagates: "urlparse url = Inl e \<Longrightarrow> slug_from_url urlparse url = Inl e"
  by (simp add: slug_from_url_def)

text \<open>
  Claim C10, amended. For every URL that \<open>urlparse\<close> accepts, that is, parses without
  raising, with a non-empty network location (which a non-empty host gives),
  \<open>slug_from_url\<close> returns a value and the value is not empty: when the path, stripped
  of trailing slashes, is empty or \<open>/\<close>, it is the network location with every \<open>.\<close>
  replaced by \<open>-\<close>; otherwise it is the last of the segments that \<open>/\<close> separates in
  the stripped path.
\<close>

theorem slug_from_url_total:
  assumes "urlparse url = Inr r" and "netloc r \<noteq> []"
  shows "\<exists>slug. slug_from_url urlparse url = Inr slug \<and> slug \<noteq> []
           \<and> slug = (if rstrip_char (CHR ''/'') (path r) = [] \<or> rstrip_char (CHR ''/'') (path r) = ''/''
                      then replace_char (CHR ''.'') (CHR ''-'') (netloc r)
                      else last (split_char (CHR ''/'') (rstrip_char (CHR ''/'') (path r))))"
proof (cases "rstrip_char (CHR ''/'') (path r) = [] \<or> rstrip_char (CHR ''/'') (path r) = ''/''")
  case True
  then show ?thesis
    using assms by (auto simp: slug_from_url_def bind_def Let_def replace_char_empty)
next
  case False
  let ?p = "rstrip_char (CHR ''/'') (path r)"
  from False have ne: "?p \<noteq> []" by simp
  then have "last ?p \<noteq> CHR ''/''" by (rule rstrip_char_last)
  with ne have "last (split_char (CHR ''/'') ?p) \<noteq> []" by (rule split_char_last_nonempty)
  then show ?thesis
    using assms False
    by (simp add: slug_from_url_def bind_def Let_def last_item_def split_char_nonempty)
qed

lemma urlparse_examples:
  "urlparse_model ''https://alpha-hack.devpost.com/''
     = Inr \<lparr>scheme = ''https'', netloc = ''alpha-hack.devpost.com'', path = ''/'', params = [],
            query = [], fragment = []\<rparr>"
  "urlparse_model ''https://devpost.com/software/my-app/?ref=x''
     = Inr \<lparr>scheme = ''https'', netloc = ''devpost.com'', path = ''/software/my-app/'', params = [],
            query = ''ref=x'', fragment = []\<rparr>"
  by code_simp+

text \<open>The theorem at a URL whose path is \<open>/\<close> and at a URL with a path of two segments and a
  trailing slash.\<close>

theorem slug_from_url_total_witness:
  "slug_from_url urlparse_model ''https://alpha-hack.devpost.com/'' = Inr ''alpha-hack-devpost-com''
   \<and> slug_from_url urlparse_model ''https://devpost.com/software/my-app/?ref=x'' = Inr ''my-app''"
proof
  have "netloc \<lparr>scheme = ''https'', netloc = ''alpha-hack.devpost.com'', path = ''/'', params = [],
            query = [], fragment = []\<rparr> \<noteq> []" by simp
  from slug_from_url_total[of urlparse_model "''https://alpha-hack.devpost.com/''",
      OF urlparse_examples(1) this]
  show "slug_from_url urlparse_model ''https://alpha-hack.devpost.com/'' = Inr ''alpha-hack-devpost-com''"
    by (simp add: rstrip_char_def replace_char_def)
next
  have "netloc \<lparr>scheme = ''https'', netloc = ''devpost.com'', path = ''/software/my-app/'',
            params = [], query = ''ref=x'', fragment = []\<rparr> \<noteq> []" by simp
  from slug_from_url_total[of urlparse_model "''https://devpost.com/software/my-app/?ref=x''",
      OF urlparse_examples(2) this]
  show "slug_from_url urlparse_model ''https://devpost.com/software/my-app/?ref=x'' = Inr ''my-app''"
    by (simp add: rstrip_char_def)
qed

text \<open>
  Claim C10 as stated, for every URL with a non-empty host, fails. In the text
  \<open>http://[::1/x\<close> the part between \<open>//\<close> and the next \<open>/\<close> is \<open>[::1\<close>, which is not
  empty; \<open>urlparse\<close> raises \<open>ValueError\<close> on its unpaired bracket, \<open>slug_from_url\<close> has
  no handler around the call and raises it too, so it returns no identifier there.
\<close>

theorem slug_from_url_raises_counterexample:
  "urlparse_model ''http://[::1/x'' = Inl ValueError
   \<and> slug_from_url urlparse_model ''http://[::1/x'' = Inl ValueError
   \<and> isl (slug_from_url urlparse_model ''http://[::1/x'')"
  by code_simp

section \<open>Verification: the extraction engine\<close>

lemma make_entry_url [simp]: "e_url (make_entry pg h u) = u"
  by (simp add: make_entry_def split: prod.splits)

lemma listing_loop_urls:
  "set (map e_url (listing_loop uj pg hs seen))
     = {u. Some u \<in> heading_url uj pg ` set hs} - seen"
proof (induction hs arbitrary: seen)
  case Nil
  then show ?case by simp
next
  case (Cons h hs)
  show ?case
  proof (cases "heading_url uj pg h")
    case None
    then have "listing_loop uj pg (h # hs) seen = listing_loop uj pg hs seen"
      by (auto simp: heading_url_def Let_def split: option.splits if_splits)
    with Cons None show ?thesis by auto
  next
    case (Some u)
    then obtain href where h: "find_href pg h = Some href" "href \<noteq> []"
      "resolve_url uj pg href = u" "u \<noteq> []"
      by (auto simp: heading_url_def split: option.splits if_splits)
    show ?thesis
    proof (cases "u \<in> seen")
      case True
      then have "listing_loop uj pg (h # hs) seen = listing_loop uj pg hs seen"
        using h by (simp add: Let_def)
      with Cons Some True show ?thesis by auto
    next
      case False
      then have "listing_loop uj pg (h # hs) seen
                 = make_entry pg h u # listing_loop uj pg hs (insert u seen)"
        using h by (simp add: Let_def)
      with Cons[of "insert u seen"] Some False show ?thesis by auto
    qed
  qed
qed

lemma listing_loop_distinct: "distinct (map e_url (listing_loop uj pg hs seen))"
proof (induction hs arbitrary: seen)
  case Nil
  then show ?case by simp
next
  case (Cons h hs)
  show ?case
  proof (cases "find_href pg h")
    case None
    with Cons show ?thesis by simp
  next
    case (Some href)
    show ?thesis
    proof (cases "href = [] \<or> resolve_url uj pg href = [] \<or> resolve_url uj pg href \<in> seen")
      case True
      with Cons Some show ?thesis by (auto simp: Let_def)
    next
      case False
      let ?u = "resolve_url uj pg href"
      have "?u \<notin> set (map e_url (listing_loop uj pg hs (insert ?u seen)))"
        unfolding listing_loop_urls by simp
      with Cons[of "insert ?u seen"] Some False show ?thesis by (simp add: Let_def)
    qed
  qed
qed

lemma distinct_count:
  "distinct (map f xs) \<Longrightarrow>
   length (filter (\<lambda>x. f x = u) xs) = (if u \<in> set (map f xs) then 1 else 0)"
  by (induction xs) auto

lemma listing_loop_nonempty_url: "e \<in> set (listing_loop uj pg hs seen) \<Longrightarrow> e_url e \<noteq> []"
proof -
  assume "e \<in> set (listing_loop uj pg hs seen)"
  then have "e_url e \<in> set (map e_url (listing_loop uj pg hs seen))" by simp
  then obtain h where "heading_url uj pg h = Some (e_url e)"
    unfolding listing_loop_urls by force
  then show ?thesis by (auto simp: heading_url_def split: option.splits if_splits)
qed

text \<open>
  Claim C5. \<open>extract_listing_items\<close> never returns two entries with the same URL: the
  \<open>url\<close> fields of the result are pairwise distinct, for every page and every behaviour
  of \<open>urljoin\<close>. Each URL to which some heading resolves has exactly one entry, however
  many headings resolve to it, and no other URL has an entry; so a page of two headings
  that resolve to the same URL gives exactly one entry.
\<close>

theorem extract_listing_items_distinct_urls:
  "distinct (map e_url (extract_listing_items uj pg))
   \<and> (\<forall>u. length (filter (\<lambda>e. e_url e = u) (extract_listing_items uj pg))
          = (if Some u \<in> heading_url uj pg ` set (listing_headings pg) then 1 else 0))
   \<and> (\<forall>h1 h2 u. listing_headings pg = [h1, h2] \<and> heading_url uj pg h1 = Some u
          \<and> heading_url uj pg h2 = Some u
        \<longrightarrow> (\<exists>e. extract_listing_items uj pg = [e] \<and> e_url e = u))"
proof (intro conjI allI impI)
  show d: "distinct (map e_url (extract_listing_items uj pg))"
    by (simp add: extract_listing_items_def listing_loop_distinct)
  fix u
  show "length (filter (\<lambda>e. e_url e = u) (extract_listing_items uj pg))
          = (if Some u \<in> heading_url uj pg ` set (listing_headings pg) then 1 else 0)"
    using distinct_count[OF d, of u] listing_loop_urls[of uj pg "listing_headings pg" "{}"]
    by (simp add: extract_listing_items_def)
next
  fix h1 h2 u
  assume a: "listing_headings pg = [h1, h2] \<and> heading_url uj pg h1 = Some u
          \<and> heading_url uj pg h2 = Some u"
  then obtain r1 r2 where r: "find_href pg h1 = Some r1" "r1 \<noteq> []" "resolve_url uj pg r1 = u"
    "find_href pg h2 = Some r2" "r2 \<noteq> []" "resolve_url uj pg r2 = u" "u \<noteq> []"
    by (auto simp: heading_url_def split: option.splits if_splits)
  then have "extract_listing_items uj pg = [make_entry pg h1 u]"
    using a by (simp add: extract_listing_items_def Let_def)
  then show "\<exists>e. extract_listing_items uj pg = [e] \<and> e_url e = u" by simp
qed

lemma listing_loop_skip:
  "listing_loop uj pg hs seen
     = listing_loop uj pg (filter (\<lambda>h. str_truthy (find_href pg h)) hs) seen"
proof (induction hs arbitrary: seen)
  case Nil
  then show ?case by simp
next
  case (Cons h hs)
  show ?case
  proof (cases "find_href pg h")
    case None
    with Cons show ?thesis by (simp add: str_truthy_def)
  next
    case (Some href)
    with Cons show ?thesis by (auto simp: str_truthy_def Let_def)
  qed
qed

lemma no_strategy_no_href:
  assumes s1: "\<not> (\<exists>a r. query_selector pg h ''a'' = Inr (Some a)
                  \<and> get_attribute pg a ''href'' = Inr (Some r) \<and> r \<noteq> [])"
    and s2: "\<not> (\<exists>r. query_selector pg h ''a'' = Inr None
                  \<and> walk_up_anchor pg 4 h = Inr (Some r) \<and> r \<noteq> [])"
    and s3: "\<not> (\<exists>a r. query_selector pg h ''a[href]'' = Inr (Some a)
                  \<and> get_attribute pg a ''href'' = Inr (Some r) \<and> r \<noteq> [])"
  shows "\<not> str_truthy (find_href pg h)"
proof -
  let ?href = "case href_first pg h of Inl e \<Rightarrow> None | Inr v \<Rightarrow> v"
  have first: "\<not> str_truthy ?href"
  proof (cases "query_selector pg h ''a''")
    case (Inl e)
    then show ?thesis by (simp add: href_first_def str_truthy_def)
  next
    case (Inr a_el)
    show ?thesis
    proof (cases a_el)
      case None
      with Inr s2 show ?thesis
        by (cases "walk_up_anchor pg 4 h")
           (auto simp: href_first_def str_truthy_def split: option.splits)
    next
      case (Some a)
      with Inr s1 show ?thesis
        by (cases "get_attribute pg a ''href''")
           (auto simp: href_first_def str_truthy_def split: option.splits)
    qed
  qed
  show ?thesis
  proof (cases "query_selector pg h ''a[href]''")
    case (Inl e)
    with first show ?thesis by (simp add: find_href_def Let_def str_truthy_def)
  next
    case (Inr m)
    show ?thesis
    proof (cases m)
      case None
      with Inr first show ?thesis by (simp add: find_href_def Let_def)
    next
      case (Some a)
      with Inr first s3 show ?thesis
        by (cases "get_attribute pg a ''href''")
           (auto simp: find_href_def Let_def str_truthy_def split: option.splits)
    qed
  qed
qed

text \<open>
  Claim C6. \<open>extract_listing_items\<close> returns the empty list when the page has no matching
  heading (and also when the query for the headings raises). A heading for which no
  strategy finds a non-empty \<open>href\<close> (the anchor inside the heading, the walk over four
  ancestors when the heading holds no anchor, the query for \<open>a[href]\<close> inside the
  heading) has a falsy \<open>href\<close>, and headings with a falsy \<open>href\<close> are left out: the result
  is the result for the headings with a truthy \<open>href\<close> alone. Every returned entry has a
  non-empty \<open>url\<close>.
\<close>

theorem extract_listing_items_skips:
  "(page_query_selector_all pg ''h3[data-v-64e017b4]'' = Inr []
      \<longrightarrow> extract_listing_items uj pg = [])
   \<and> (\<forall>err. page_query_selector_all pg ''h3[data-v-64e017b4]'' = Inl err
      \<longrightarrow> extract_listing_items uj pg = [])
   \<and> (\<forall>h. \<not> (\<exists>a r. query_selector pg h ''a'' = Inr (Some a)
                  \<and> get_attribute pg a ''href'' = Inr (Some r) \<and> r \<noteq> [])
         \<and> \<not> (\<exists>r. query_selector pg h ''a'' = Inr None
                  \<and> walk_up_anchor pg 4 h = Inr (Some r) \<and> r \<noteq> [])
         \<and> \<not> (\<exists>a r. query_selector pg h ''a[href]'' = Inr (Some a)
                  \<and> get_attribute pg a ''href'' = Inr (Some r) \<and> r \<noteq> [])
      \<longrightarrow> \<not> str_truthy (find_href pg h))
   \<and> extract_listing_items uj pg
       = listing_loop uj pg (filter (\<lambda>h. str_truthy (find_href pg h)) (listing_headings pg)) {}
   \<and> (\<forall>e\<in>set (extract_listing_items uj pg). e_url e \<noteq> [])"
proof (intro conjI allI impI ballI)
  assume "page_query_selector_all pg ''h3[data-v-64e017b4]'' = Inr []"
  then show "extract_listing_items uj pg = []"
    by (simp add: extract_listing_items_def listing_headings_def)
next
  fix err
  assume "page_query_selector_all pg ''h3[data-v-64e017b4]'' = Inl err"
  then show "extract_listing_items uj pg = []"
    by (simp add: extract_listing_items_def listing_headings_def)
next
  fix h
  assume a: "\<not> (\<exists>a r. query_selector pg h ''a'' = Inr (Some a)
                  \<and> get_attribute pg a ''href'' = Inr (Some r) \<and> r \<noteq> [])
         \<and> \<not> (\<exists>r. query_selector pg h ''a'' = Inr None
                  \<and> walk_up_anchor pg 4 h = Inr (Some r) \<and> r \<noteq> [])
         \<and> \<not> (\<exists>a r. query_selector pg h ''a[href]'' = Inr (Some a)
                  \<and> get_attribute pg a ''href'' = Inr (Some r) \<and> r \<noteq> [])"
  show "\<not> str_truthy (find_href pg h)"
    by (rule no_strategy_no_href[OF conjunct1[OF a] conjunct1[OF conjunct2[OF a]]
          conjunct2[OF conjunct2[OF a]]])
next
  show "extract_listing_items uj pg
       = listing_loop uj pg (filter (\<lambda>h. str_truthy (find_href pg h)) (listing_headings pg)) {}"
    unfolding extract_listing_items_def by (rule listing_loop_skip)
next
  fix e
  assume "e \<in> set (extract_listing_items uj pg)"
  then show "e_url e \<noteq> []"
    unfolding extract_listing_items_def by (rule listing_loop_nonempty_url)
qed

lemma listing_page_urls:
  "map (heading_url urljoin_model listing_page) (listing_headings listing_page)
     = [Some ''https://alpha.devpost.com/'', Some ''https://alpha.devpost.com/'', None,
        Some ''https://devpost.com/hackathons/beta-jam/'']"
  by code_simp

lemma pair_page_urls:
  "listing_headings pair_page = [[0, 0, 0], [0, 1, 0]]"
  "heading_url urljoin_model pair_page [0, 0, 0] = Some ''https://alpha.devpost.com/''"
  "heading_url urljoin_model pair_page [0, 1, 0] = Some ''https://alpha.devpost.com/''"
  by code_simp+

text \<open>The theorem at the example listing, where two headings resolve to
  \<open>https://alpha.devpost.com/\<close>, and at the listing of just these two headings.\<close>

theorem extract_listing_items_distinct_urls_witness:
  "distinct (map e_url (extract_listing_items urljoin_model listing_page))
   \<and> length (filter (\<lambda>e. e_url e = ''https://alpha.devpost.com/'')
               (extract_listing_items urljoin_model listing_page)) = 1
   \<and> (\<exists>e. extract_listing_items urljoin_model pair_page = [e]
          \<and> e_url e = ''https://alpha.devpost.com/'')"
proof (intro conjI)
  note T = extract_listing_items_distinct_urls[of urljoin_model listing_page]
  show "distinct (map e_url (extract_listing_items urljoin_model listing_page))"
    by (rule T[THEN conjunct1])
  have m: "Some ''https://alpha.devpost.com/''
          \<in> heading_url urljoin_model listing_page ` set (listing_headings listing_page)"
  proof -
    have "Some ''https://alpha.devpost.com/''
            \<in> set (map (heading_url urljoin_model listing_page) (listing_headings listing_page))"
      by (simp only: listing_page_urls) simp
    then show ?thesis by simp
  qed
  show "length (filter (\<lambda>e. e_url e = ''https://alpha.devpost.com/'')
               (extract_listing_items urljoin_model listing_page)) = 1"
    using T[THEN conjunct2, THEN conjunct1, THEN spec, of "''https://alpha.devpost.com/''"] m
    by (simp only: if_True)
  have "listing_headings pair_page = [[0, 0, 0], [0, 1, 0]]
        \<and> heading_url urljoin_model pair_page [0, 0, 0] = Some ''https://alpha.devpost.com/''
        \<and> heading_url urljoin_model pair_page [0, 1, 0] = Some ''https://alpha.devpost.com/''"
    by (simp only: pair_page_urls)
  then show "\<exists>e. extract_listing_items urljoin_model pair_page = [e]
          \<and> e_url e = ''https://alpha.devpost.com/''"
    by (rule extract_listing_items_distinct_urls[of urljoin_model pair_page,
          THEN conjunct2, THEN conjunct2, rule_format])
qed

lemma no_link_heading:
  "query_selector listing_page [0, 2, 0, 0, 0, 0, 0] ''a'' = Inr None"
  "walk_up_anchor listing_page 4 [0, 2, 0, 0, 0, 0, 0] = Inr None"
  "query_selector listing_page [0, 2, 0, 0, 0, 0, 0] ''a[href]'' = Inr None"
  by code_simp+

lemma empty_pages:
  "page_query_selector_all (dom_page ''https://devpost.com/hackathons'' detail_root)
     ''h3[data-v-64e017b4]'' = Inr []"
  "page_query_selector_all broken_page ''h3[data-v-64e017b4]'' = Inl OtherError"
  by code_simp+

lemma listing_page_truthy:
  "filter (\<lambda>h. str_truthy (find_href listing_page h)) (listing_headings listing_page)
     = [[0, 0, 0], [0, 1, 0], [0, 3, 0, 0]]"
  by code_simp

text \<open>The theorem at a page without headings, at a page whose query raises, and at the
  example listing, whose third heading has no anchor within reach.\<close>

theorem extract_listing_items_skips_witness:
  "extract_listing_items urljoin_model (dom_page ''https://devpost.com/hackathons'' detail_root) = []
   \<and> extract_listing_items urljoin_model broken_page = []
   \<and> \<not> str_truthy (find_href listing_page [0, 2, 0, 0, 0, 0, 0])
   \<and> extract_listing_items urljoin_model listing_page
       = listing_loop urljoin_model listing_page [[0, 0, 0], [0, 1, 0], [0, 3, 0, 0]] {}
   \<and> list_all (\<lambda>e. e_url e \<noteq> []) (extract_listing_items urljoin_model listing_page)"
proof (intro conjI)
  show "extract_listing_items urljoin_model (dom_page ''https://devpost.com/hackathons'' detail_root) = []"
    using empty_pages(1)
    by (rule extract_listing_items_skips
          [of "dom_page ''https://devpost.com/hackathons'' detail_root" urljoin_model,
           THEN conjunct1, rule_format])
  show "extract_listing_items urljoin_model broken_page = []"
    using empty_pages(2)
    by (rule extract_listing_items_skips[of broken_page urljoin_model,
          THEN conjunct2, THEN conjunct1, rule_format])
  note T = extract_listing_items_skips[of listing_page urljoin_model,
      THEN conjunct2, THEN conjunct2]
  have "\<not> (\<exists>a r. query_selector listing_page [0, 2, 0, 0, 0, 0, 0] ''a'' = Inr (Some a)
                  \<and> get_attribute listing_page a ''href'' = Inr (Some r) \<and> r \<noteq> [])
         \<and> \<not> (\<exists>r. query_selector listing_page [0, 2, 0, 0, 0, 0, 0] ''a'' = Inr None
                  \<and> walk_up_anchor listing_page 4 [0, 2, 0, 0, 0, 0, 0] = Inr (Some r) \<and> r \<noteq> [])
         \<and> \<not> (\<exists>a r. query_selector listing_page [0, 2, 0, 0, 0, 0, 0] ''a[href]'' = Inr (Some a)
                  \<and> get_attribute listing_page a ''href'' = Inr (Some r) \<and> r \<noteq> [])"
    by (simp add: no_link_heading)
  then show "\<not> str_truthy (find_href listing_page [0, 2, 0, 0, 0, 0, 0])"
    by (rule T[THEN conjunct1, THEN spec, THEN mp])
  show "extract_listing_items urljoin_model listing_page
       = listing_loop urljoin_model listing_page [[0, 0, 0], [0, 1, 0], [0, 3, 0, 0]] {}"
    using T[THEN conjunct2, THEN conjunct1] by (simp only: listing_page_truthy)
  show "list_all (\<lambda>e. e_url e \<noteq> []) (extract_listing_items urljoin_model listing_page)"
    using T[THEN conjunct2, THEN conjunct2] by (simp only: list_all_iff)
qed

section \<open>Verification: the orchestrator\<close>

lemma status_without_end:
  "determine_status_from_iso f now b None = Inr ''upcoming''"
proof (cases "parse_opt f b")
  case (Inl err)
  then show ?thesis by (rule malformed_start)
next
  case (Inr s)
  show ?thesis
  proof (cases s)
    case None
    with Inr show ?thesis by (simp add: determine_status_from_iso_def status_try_def)
  next
    case (Some sd)
    with Inr show ?thesis
      by (cases "dt_lt now sd") (simp_all add: determine_status_from_iso_def status_try_def)
  qed
qed

lemma fallback_begin_only: "x \<noteq> [] \<Longrightarrow> fallback_period (Some x) None = Some x"
  by (simp add: fallback_period_def truthy_part_def)

lemma enrich_no_override:
  assumes "goto br (e_url it) = Inr dp"
    and "page_query_selector dp ''h1'' = Inr None"
    and "page_query_selector_all dp ''td[data-iso-date]'' = Inr []"
  shows "enrich br it = Inr (e_title it, e_begins_iso it, e_ends_iso it)"
  using assms by (simp add: enrich_def detail_name_def detail_dates_def)

lemma enrich_timeout:
  "goto br (e_url it) = Inl PlaywrightTimeoutError \<Longrightarrow>
   enrich br it = Inr (e_title it, e_begins_iso it, e_ends_iso it)"
  by (simp add: enrich_def)

text \<open>
  Claim C7. Take a listing entry with \<open>begins_iso\<close> \<open>2030-01-01T00:00:00Z\<close> and no
  \<open>ends_iso\<close>, whose detail page changes neither the title nor the dates, and let the slug
  of its URL, when it has one, be computed without an exception. Then the round of the
  orchestrator assembles this document, for every parser and every clock: its status is
  \<open>upcoming\<close>; its id is the slug when the entry has a URL and the title otherwise; its
  \<open>submission_period\<close> is the listing's text when that is present and not empty, and
  \<open>2030-01-01T00:00:00Z\<close> otherwise. The round hands this document to the upsert, the loop
  over this one entry returns exactly this document, and so does the whole run on a
  listing from which this entry alone is extracted.
\<close>

theorem scrape_entry_upcoming:
  assumes b: "e_begins_iso it = Some ''2030-01-01T00:00:00Z''"
    and en: "e_ends_iso it = None"
    and d: "enrich br it = Inr (e_title it, e_begins_iso it, e_ends_iso it)"
    and i: "e_url it = [] \<or> slug_from_url (lib_urlparse lib) (e_url it) = Inr slug"
    and doc: "doc = \<lparr>d_id = (if e_url it \<noteq> [] then slug else e_title it),
                    d_name = e_title it,
                    d_submission_period =
                      (if str_truthy (e_submission_period it) then e_submission_period it
                       else Some ''2030-01-01T00:00:00Z''),
                    d_status = ''upcoming''\<rparr>"
  shows "process_item lib br srv idx it w
           = (Inr doc, snd (upsert_hackathon srv (doc_value doc) w))
         \<and> fst (scrape_items lib br srv idx [it] w) = [doc]
         \<and> (\<forall>u pg limit. goto br u = Inr pg \<and> extract_listing_items (lib_urljoin lib) pg = [it]
              \<longrightarrow> fst (scrape_all_from_listing lib br srv u limit w) = Inr [doc])"
proof (intro conjI allI impI)
  have f: "fallback_period (Some ''2030-01-01T00:00:00Z'') None = Some ''2030-01-01T00:00:00Z''"
    by (rule fallback_begin_only) simp
  have a: "\<And>now. assemble lib now it (e_title it) (e_begins_iso it) (e_ends_iso it) = Inr doc"
    using i by (auto simp: assemble_def b en status_without_end f Let_def doc)
  show p: "\<And>idx w. process_item lib br srv idx it w
           = (Inr doc, snd (upsert_hackathon srv (doc_value doc) w))"
    by (simp add: process_item_def d a)
  show s: "\<And>idx w. fst (scrape_items lib br srv idx [it] w) = [doc]"
    by (simp add: p)
  fix u pg limit
  assume g: "goto br u = Inr pg \<and> extract_listing_items (lib_urljoin lib) pg = [it]"
  have t: "(if limit > 0 then take (nat limit) [it] else [it]) = [it]"
    by (cases "nat limit") auto
  obtain docs w' where r: "scrape_items lib br srv 1 [it] w = (docs, w')"
    by (cases "scrape_items lib br srv 1 [it] w")
  with s[of 1 w] have "docs = [doc]" by simp
  with g t r show "fst (scrape_all_from_listing lib br srv u limit w) = Inr [doc]"
    by (simp add: scrape_all_from_listing_def Let_def)
qed

lemma beta_slug:
  "slug_from_url (lib_urlparse lib_model) (e_url beta_entry) = Inr ''beta-jam''"
  by code_simp

lemma beta_goto:
  "goto browser_model (e_url beta_entry) = Inr (dom_page (e_url beta_entry) detail_root)"
  by (simp add: browser_model_def beta_entry_def)

lemma beta_detail:
  "page_query_selector (dom_page (e_url beta_entry) detail_root) ''h1'' = Inr None"
  "page_query_selector_all (dom_page (e_url beta_entry) detail_root) ''td[data-iso-date]'' = Inr []"
  by code_simp+

lemma single_page_entries: "extract_listing_items (lib_urljoin lib_model) single_page = [beta_entry]"
  by code_simp

lemma single_page_goto: "goto browser_model ''https://devpost.com/hackathons?page=2'' = Inr single_page"
  by (simp add: browser_model_def)

text \<open>The theorem at the entry of the second example listing, whose detail page has
  neither \<open>h1\<close> nor dates, with the run on that listing, and at an entry without URL and
  without text.\<close>

theorem scrape_entry_upcoming_witness:
  "fst (scrape_items lib_model browser_model server_up 1 [beta_entry] world0)
     = [\<lparr>d_id = ''beta-jam'', d_name = ''Beta Jam'', d_submission_period = Some ''Jan 01 - soon'',
         d_status = ''upcoming''\<rparr>]
   \<and> fst (scrape_all_from_listing lib_model browser_model server_up
            ''https://devpost.com/hackathons?page=2'' 0 world0)
     = Inr [\<lparr>d_id = ''beta-jam'', d_name = ''Beta Jam'',
              d_submission_period = Some ''Jan 01 - soon'', d_status = ''upcoming''\<rparr>]
   \<and> fst (scrape_items lib_model browser_model server_up 1 [bare_entry] world0)
     = [\<lparr>d_id = ''Gamma Fest'', d_name = ''Gamma Fest'',
         d_submission_period = Some ''2030-01-01T00:00:00Z'', d_status = ''upcoming''\<rparr>]"
proof (intro conjI)
  have 1: "e_begins_iso beta_entry = Some ''2030-01-01T00:00:00Z''"
    and 2: "e_ends_iso beta_entry = None"
    by (simp_all add: beta_entry_def)
  have 3: "enrich browser_model beta_entry
             = Inr (e_title beta_entry, e_begins_iso beta_entry, e_ends_iso beta_entry)"
    using beta_goto beta_detail by (rule enrich_no_override)
  have 4: "e_url beta_entry = []
           \<or> slug_from_url (lib_urlparse lib_model) (e_url beta_entry) = Inr ''beta-jam''"
    using beta_slug by simp
  have 5: "\<lparr>d_id = ''beta-jam'', d_name = ''Beta Jam'', d_submission_period = Some ''Jan 01 - soon'',
            d_status = ''upcoming''\<rparr>
           = \<lparr>d_id = (if e_url beta_entry \<noteq> [] then ''beta-jam'' else e_title beta_entry),
              d_name = e_title beta_entry,
              d_submission_period =
                (if str_truthy (e_submission_period beta_entry) then e_submission_period beta_entry
                 else Some ''2030-01-01T00:00:00Z''),
              d_status = ''upcoming''\<rparr>"
    by (simp add: beta_entry_def str_truthy_def)
  note T = scrape_entry_upcoming[OF 1 2 3 4 5, of server_up 1 world0]
  show "fst (scrape_items lib_model browser_model server_up 1 [beta_entry] world0)
     = [\<lparr>d_id = ''beta-jam'', d_name = ''Beta Jam'', d_submission_period = Some ''Jan 01 - soon'',
         d_status = ''upcoming''\<rparr>]"
    by (rule T[THEN conjunct2, THEN conjunct1])
  have "goto browser_model ''https://devpost.com/hackathons?page=2'' = Inr single_page
        \<and> extract_listing_items (lib_urljoin lib_model) single_page = [beta_entry]"
    using single_page_goto single_page_entries by simp
  then show "fst (scrape_all_from_listing lib_model browser_model server_up
            ''https://devpost.com/hackathons?page=2'' 0 world0)
     = Inr [\<lparr>d_id = ''beta-jam'', d_name = ''Beta Jam'',
              d_submission_period = Some ''Jan 01 - soon'', d_status = ''upcoming''\<rparr>]"
    by (rule T[THEN conjunct2, THEN conjunct2, rule_format])
next
  have 1: "e_begins_iso bare_entry = Some ''2030-01-01T00:00:00Z''"
    and 2: "e_ends_iso bare_entry = None"
    by (simp_all add: bare_entry_def)
  have 3: "enrich browser_model bare_entry
             = Inr (e_title bare_entry, e_begins_iso bare_entry, e_ends_iso bare_entry)"
    by (simp add: enrich_def bare_entry_def)
  have 4: "e_url bare_entry = []
           \<or> slug_from_url (lib_urlparse lib_model) (e_url bare_entry) = Inr []"
    by (simp add: bare_entry_def)
  have 5: "\<lparr>d_id = ''Gamma Fest'', d_name = ''Gamma Fest'',
            d_submission_period = Some ''2030-01-01T00:00:00Z'', d_status = ''upcoming''\<rparr>
           = \<lparr>d_id = (if e_url bare_entry \<noteq> [] then [] else e_title bare_entry),
              d_name = e_title bare_entry,
              d_submission_period =
                (if str_truthy (e_submission_period bare_entry) then e_submission_period bare_entry
                 else Some ''2030-01-01T00:00:00Z''),
              d_status = ''upcoming''\<rparr>"
    by (simp add: bare_entry_def str_truthy_def)
  show "fst (scrape_items lib_model browser_model server_up 1 [bare_entry] world0)
     = [\<lparr>d_id = ''Gamma Fest'', d_name = ''Gamma Fest'',
         d_submission_period = Some ''2030-01-01T00:00:00Z'', d_status = ''upcoming''\<rparr>]"
    by (rule scrape_entry_upcoming[OF 1 2 3 4 5, of server_up 1 world0,
          THEN conjunct2, THEN conjunct1])
qed

text \<open>The whole run on the example listing: the first entry's detail page times out, the
  second entry's detail page has neither \<open>h1\<close> nor dates.\<close>

lemma scrape_example:
  "fst (scrape_all_from_listing lib_model browser_model server_up
          ''https://devpost.com/hackathons'' 0 world0)
     = Inr [\<lparr>d_id = ''alpha-devpost-com'', d_name = ''Alpha Hack'',
              d_submission_period = Some ''Jan 01 - soon'', d_status = ''upcoming''\<rparr>,
            \<lparr>d_id = ''beta-jam'', d_name = ''Beta Jam'',
              d_submission_period = Some ''Jan 01 - soon'', d_status = ''upcoming''\<rparr>]"
  by code_simp

end
